theory Spec2Isabelle
  imports Main "HOL-Library.Sublist" "HOL-Library.AList"
begin

section \<open>Python values used by the program\<close>

text \<open>
  A Python \<open>str\<close> is a sequence of Unicode code points; it is modelled as a list of
  natural numbers, one per code point. \<open>lit ''abc''\<close> is the \<open>str\<close> of an ASCII literal.
  A \<open>bytes\<close> object is a list of numbers below 256.
\<close>

type_synonym str = "nat list"

type_synonym bytes = "nat list"

abbreviation (input) lit :: "string \<Rightarrow> str" where
  "lit s \<equiv> map (of_char :: char \<Rightarrow> nat) s"

datatype py_error =
    ValueError
  | KeyError
  | EOFError
  | UnicodeEncodeError
  | UnicodeDecodeError
  | binascii_Error
  | HTTPError nat
  | ConnectionError
  | JSONDecodeError
  | TypeError
  | OSError
  | FileNotFoundError
  | FileExistsError
  | KeyboardInterrupt

text \<open>\<open>s.split(sep)\<close> for a separator of one character: the pieces between the
  occurrences of \<open>sep\<close>, empty pieces included; never the empty list.\<close>

fun py_split :: "nat \<Rightarrow> str \<Rightarrow> str list" where
  "py_split sep [] = [[]]"
| "py_split sep (c # cs) =
     (if c = sep then [] # py_split sep cs
      else (case py_split sep cs of
              [] \<Rightarrow> [[c]]
            | p # ps \<Rightarrow> (c # p) # ps))"

text \<open>\<open>sep.join(pieces)\<close>.\<close>

fun py_join :: "nat \<Rightarrow> str list \<Rightarrow> str" where
  "py_join sep [] = []"
| "py_join sep [p] = p"
| "py_join sep (p # q # ps) = p @ sep # py_join sep (q # ps)"

subsection \<open>\<open>int(str)\<close>\<close>

text \<open>
  CPython 3.11 (the source needs \<open>http.HTTPMethod\<close>, new in 3.11) converts a \<open>str\<close> to an
  \<open>int\<close> in base 10 as follows: white space at both ends is skipped, one sign is allowed,
  then come decimal digits, single underscores allowed between two digits. Any Unicode
  decimal digit (category Nd, Unicode 14: 66 runs of ten code points) counts as a digit.
  More than 4300 digits are refused (the default \<open>sys.get_int_max_str_digits()\<close>). Every
  failure is a \<open>ValueError\<close>.
\<close>

definition int_space :: "nat \<Rightarrow> bool" where
  "int_space c \<longleftrightarrow>
     (9 \<le> c \<and> c \<le> 13) \<or> c = 32 \<or> c = 133 \<or> c = 160 \<or> c = 5760 \<or>
     (8192 \<le> c \<and> c \<le> 8202) \<or> c = 8232 \<or> c = 8233 \<or> c = 8239 \<or> c = 8287 \<or>
     c = 12288"

definition decimal_zeros :: "nat list" where
  "decimal_zeros =
     [1632, 1776, 1984, 2406, 2534, 2662, 2790, 2918, 3046, 3174, 3302, 3430, 3558,
      3664, 3792, 3872, 4160, 4240, 6112, 6160, 6470, 6608, 6784, 6800, 6992, 7088,
      7232, 7248, 42528, 43216, 43264, 43472, 43504, 43600, 44016, 65296, 66720,
      68912, 69734, 69872, 69942, 70096, 70384, 70736, 70864, 71248, 71360, 71472,
      71904, 72016, 72784, 73040, 73120, 92768, 92864, 93008, 120782, 120792,
      120802, 120812, 120822, 123200, 123632, 125264, 130032]"

definition digit_value :: "nat \<Rightarrow> nat option" where
  "digit_value c =
     (if 48 \<le> c \<and> c \<le> 57 then Some (c - 48)
      else if c < 128 then None
      else (case filter (\<lambda>z. z \<le> c \<and> c < z + 10) decimal_zeros of
              [] \<Rightarrow> None
            | z # _ \<Rightarrow> Some (c - z)))"

definition is_digit :: "nat \<Rightarrow> bool" where
  "is_digit c \<longleftrightarrow> digit_value c \<noteq> None"

text \<open>The scan of the digits: \<open>prev\<close> is the character before. An underscore may not
  follow an underscore nor end the number.\<close>

fun scan_digits :: "nat \<Rightarrow> str \<Rightarrow> bool" where
  "scan_digits prev [] = (prev \<noteq> 95)"
| "scan_digits prev (c # cs) =
     (if c = 95 then prev \<noteq> 95 \<and> scan_digits c cs
      else is_digit c \<and> scan_digits c cs)"

definition digits_ok :: "str \<Rightarrow> bool" where
  "digits_ok body \<longleftrightarrow> body \<noteq> [] \<and> hd body \<noteq> 95 \<and> scan_digits 0 body"

fun digits_value :: "nat \<Rightarrow> str \<Rightarrow> nat" where
  "digits_value acc [] = acc"
| "digits_value acc (c # cs) =
     (case digit_value c of
        None \<Rightarrow> digits_value acc cs
      | Some d \<Rightarrow> digits_value (10 * acc + d) cs)"

definition int_max_str_digits :: nat where
  "int_max_str_digits = 4300"

definition strip_space :: "str \<Rightarrow> str" where
  "strip_space s = rev (dropWhile int_space (rev (dropWhile int_space s)))"

definition py_int_unsigned :: "str \<Rightarrow> py_error + nat" where
  "py_int_unsigned body =
     (if \<not> digits_ok body then Inl ValueError
      else if length (filter is_digit body) > int_max_str_digits then Inl ValueError
      else Inr (digits_value 0 body))"

definition py_int :: "str \<Rightarrow> py_error + int" where
  "py_int s =
     (case strip_space s of
        [] \<Rightarrow> Inl ValueError
      | c # cs \<Rightarrow>
          if c = 43 then map_sum id int (py_int_unsigned cs)
          else if c = 45 then map_sum id (\<lambda>n. - int n) (py_int_unsigned cs)
          else map_sum id int (py_int_unsigned (c # cs)))"

text \<open>\<open>sys.maxsize\<close> of a 64-bit CPython.\<close>

definition sys_maxsize :: int where
  "sys_maxsize = 9223372036854775807"

section \<open>IndexFilter\<close>

text \<open>A Python \<open>range(start, stop)\<close> with step 1.\<close>

datatype py_range = PyRange (start: int) (stop: int)

definition in_range :: "int \<Rightarrow> py_range \<Rightarrow> bool" where
  "in_range index r \<longleftrightarrow> start r \<le> index \<and> index < stop r"

text \<open>
  \<open>IndexFilter.__init__\<close>. The tokens the loop runs over: the pieces of
  \<open>filters.split(",")\<close>, each with every space (U+0020) removed by
  \<open>replace(" ", "")\<close>, the empty ones dropped by \<open>filter(None, ...)\<close>.
\<close>

definition filter_tokens :: "str \<Rightarrow> str list" where
  "filter_tokens filters =
     filter (\<lambda>t. t \<noteq> []) (map (filter (\<lambda>c. c \<noteq> 32)) (py_split 44 filters))"

text \<open>The loop body: the range one token appends, or the error it raises. Unpacking
  \<open>start, end = token.split("-")\<close> raises \<open>ValueError\<close> unless there are exactly two
  pieces.\<close>

definition parse_filter :: "str \<Rightarrow> py_error + py_range" where
  "parse_filter t =
     (if 45 \<in> set t then
        (case py_split 45 t of
           [start_s, end_s] \<Rightarrow>
             (case (if start_s = [] then Inr 0 else py_int start_s) of
                Inl e \<Rightarrow> Inl e
              | Inr a \<Rightarrow>
                 (case (if end_s = [] then Inr sys_maxsize else py_int end_s) of
                    Inl e \<Rightarrow> Inl e
                  | Inr b \<Rightarrow> Inr (PyRange a b)))
         | _ \<Rightarrow> Inl ValueError)
      else
        (case py_int t of
           Inl e \<Rightarrow> Inl e
         | Inr a \<Rightarrow> Inr (PyRange a (- 1))))"

fun IndexFilter_append :: "py_range list \<Rightarrow> str list \<Rightarrow> py_error + py_range list" where
  "IndexFilter_append acc [] = Inr acc"
| "IndexFilter_append acc (t # ts) =
     (case parse_filter t of
        Inl e \<Rightarrow> Inl e
      | Inr r \<Rightarrow> IndexFilter_append (acc @ [r]) ts)"

definition IndexFilter_init :: "str \<Rightarrow> py_error + py_range list" where
  "IndexFilter_init filters = IndexFilter_append [] (filter_tokens filters)"

text \<open>\<open>IndexFilter.__call__\<close>: the loop over the stored ranges, then the method.\<close>

fun IndexFilter_scan :: "py_range list \<Rightarrow> int \<Rightarrow> bool" where
  "IndexFilter_scan [] index = False"
| "IndexFilter_scan (f # fs) index =
     (if stop f = - 1 then
        (if index = start f then True else IndexFilter_scan fs index)
      else if in_range index f then True
      else IndexFilter_scan fs index)"

definition IndexFilter_call :: "py_range list \<Rightarrow> int \<Rightarrow> bool" where
  "IndexFilter_call filters index =
     (if filters \<noteq> [] then IndexFilter_scan filters index else True)"

text \<open>\<open>IndexFilter.filter\<close>: \<open>itertools.compress(iterable, map(self, itertools.count()))\<close>
  keeps the elements whose position, counted from 0, the filter accepts.\<close>

fun compress_from :: "py_range list \<Rightarrow> int \<Rightarrow> 'a list \<Rightarrow> 'a list" where
  "compress_from filters i [] = []"
| "compress_from filters i (x # xs) =
     (if IndexFilter_call filters i then x # compress_from filters (i + 1) xs
      else compress_from filters (i + 1) xs)"

definition IndexFilter_filter :: "py_range list \<Rightarrow> 'a list \<Rightarrow> 'a list" where
  "IndexFilter_filter filters xs = compress_from filters 0 xs"

section \<open>File names of the fragments: \<open>encode_data\<close> and \<open>decode_data\<close>\<close>

subsection \<open>\<open>str.encode()\<close> and \<open>bytes.decode()\<close>: UTF-8\<close>

definition is_surrogate :: "nat \<Rightarrow> bool" where
  "is_surrogate c \<longleftrightarrow> 55296 \<le> c \<and> c \<le> 57343"

text \<open>The bytes of one code point below 1114112 (0x110000).\<close>

definition utf8_char :: "nat \<Rightarrow> bytes" where
  "utf8_char c =
     (if c < 128 then [c]
      else if c < 2048 then [192 + c div 64, 128 + c mod 64]
      else if c < 65536 then [224 + c div 4096, 128 + c div 64 mod 64, 128 + c mod 64]
      else [240 + c div 262144, 128 + c div 4096 mod 64, 128 + c div 64 mod 64,
            128 + c mod 64])"

text \<open>\<open>s.encode()\<close>: a surrogate code point (a \<open>str\<close> may hold one, for instance from
  the JSON text \<open>"\ud800"\<close>) cannot be encoded.\<close>

fun str_encode :: "str \<Rightarrow> py_error + bytes" where
  "str_encode [] = Inr []"
| "str_encode (c # cs) =
     (if is_surrogate c then Inl UnicodeEncodeError
      else (case str_encode cs of
              Inl e \<Rightarrow> Inl e
            | Inr bs \<Rightarrow> Inr (utf8_char c @ bs)))"

definition is_cont :: "nat \<Rightarrow> bool" where
  "is_cont b \<longleftrightarrow> 128 \<le> b \<and> b < 192"

text \<open>\<open>b.decode()\<close>, strict: overlong forms, surrogates, code points from 0x110000 on and
  broken sequences are refused.\<close>

fun bytes_decode :: "bytes \<Rightarrow> py_error + str" where
  "bytes_decode [] = Inr []"
| "bytes_decode (b0 # bs) =
     (if b0 < 128 then map_sum id ((#) b0) (bytes_decode bs)
      else if 194 \<le> b0 \<and> b0 < 224 then
        (case bs of
           b1 # r \<Rightarrow>
             if is_cont b1
             then map_sum id ((#) ((b0 - 192) * 64 + (b1 - 128))) (bytes_decode r)
             else Inl UnicodeDecodeError
         | _ \<Rightarrow> Inl UnicodeDecodeError)
      else if 224 \<le> b0 \<and> b0 < 240 then
        (case bs of
           b1 # b2 # r \<Rightarrow>
             (let c = (b0 - 224) * 4096 + (b1 - 128) * 64 + (b2 - 128)
              in if is_cont b1 \<and> is_cont b2 \<and> 2048 \<le> c \<and> \<not> is_surrogate c
                 then map_sum id ((#) c) (bytes_decode r)
                 else Inl UnicodeDecodeError)
         | _ \<Rightarrow> Inl UnicodeDecodeError)
      else if 240 \<le> b0 \<and> b0 < 245 then
        (case bs of
           b1 # b2 # b3 # r \<Rightarrow>
             (let c = (b0 - 240) * 262144 + (b1 - 128) * 4096 + (b2 - 128) * 64 + (b3 - 128)
              in if is_cont b1 \<and> is_cont b2 \<and> is_cont b3 \<and> 65536 \<le> c \<and> c < 1114112
                 then map_sum id ((#) c) (bytes_decode r)
                 else Inl UnicodeDecodeError)
         | _ \<Rightarrow> Inl UnicodeDecodeError)
      else Inl UnicodeDecodeError)"

subsection \<open>\<open>base64.urlsafe_b64encode\<close> and \<open>base64.urlsafe_b64decode\<close>\<close>

text \<open>The standard alphabet \<open>A-Z a-z 0-9 + /\<close>: the character of a 6-bit value, and the
  value of a character (\<open>None\<close> outside the alphabet).\<close>

definition b64_char :: "nat \<Rightarrow> nat" where
  "b64_char v =
     (if v < 26 then 65 + v
      else if v < 52 then 97 + (v - 26)
      else if v < 62 then 48 + (v - 52)
      else if v = 62 then 43
      else 47)"

definition b64_value :: "nat \<Rightarrow> nat option" where
  "b64_value c =
     (if 65 \<le> c \<and> c \<le> 90 then Some (c - 65)
      else if 97 \<le> c \<and> c \<le> 122 then Some (c - 97 + 26)
      else if 48 \<le> c \<and> c \<le> 57 then Some (c - 48 + 52)
      else if c = 43 then Some 62
      else if c = 47 then Some 63
      else None)"

text \<open>\<open>binascii.b2a_base64(s, newline=False)\<close>: three bytes give four characters, the
  rest is padded with \<open>=\<close> (61).\<close>

fun b2a_base64 :: "bytes \<Rightarrow> bytes" where
  "b2a_base64 (a # b # c # r) =
     b64_char (a div 4) # b64_char (a mod 4 * 16 + b div 16) #
     b64_char (b mod 16 * 4 + c div 64) # b64_char (c mod 64) # b2a_base64 r"
| "b2a_base64 [a, b] =
     [b64_char (a div 4), b64_char (a mod 4 * 16 + b div 16), b64_char (b mod 16 * 4), 61]"
| "b2a_base64 [a] = [b64_char (a div 4), b64_char (a mod 4 * 16), 61, 61]"
| "b2a_base64 [] = []"

text \<open>The URL-safe variant writes \<open>-\<close> (45) for \<open>+\<close> (43) and \<open>_\<close> (95) for \<open>/\<close> (47).\<close>

definition urlsafe_b64encode :: "bytes \<Rightarrow> bytes" where
  "urlsafe_b64encode s =
     map (\<lambda>c. if c = 43 then 45 else if c = 47 then 95 else c) (b2a_base64 s)"

text \<open>
  \<open>binascii.a2b_base64\<close> in its default, non-strict mode, as \<open>base64.b64decode\<close> calls it.
  The state is that of the C loop: \<open>quad_pos\<close>, the position in the group of four,
  \<open>leftchar\<close>, the bits left over from the character before, and \<open>pads\<close>, the number of
  \<open>=\<close> seen in a row. A character outside the alphabet is skipped. Padding that
  completes a group ends the decoding, whatever follows; other padding is skipped. At the
  end of the input a group left open is an error. (The C code joins the bits with shifts
  and \<open>|\<close>; the parts never overlap, so the sums below are the same numbers.)
\<close>

fun a2b_base64 :: "nat \<Rightarrow> nat \<Rightarrow> nat \<Rightarrow> bytes \<Rightarrow> py_error + bytes" where
  "a2b_base64 quad_pos leftchar pads [] =
     (if quad_pos \<noteq> 0 then Inl binascii_Error else Inr [])"
| "a2b_base64 quad_pos leftchar pads (c # cs) =
     (if c = 61 then
        (if quad_pos \<ge> 2 \<and> quad_pos + (pads + 1) \<ge> 4 then Inr []
         else a2b_base64 quad_pos leftchar (if quad_pos \<ge> 2 then pads + 1 else pads) cs)
      else
        (case b64_value c of
           None \<Rightarrow> a2b_base64 quad_pos leftchar pads cs
         | Some v \<Rightarrow>
             if quad_pos = 0 then a2b_base64 1 v 0 cs
             else if quad_pos = 1 then
               map_sum id ((#) (leftchar * 4 + v div 16)) (a2b_base64 2 (v mod 16) 0 cs)
             else if quad_pos = 2 then
               map_sum id ((#) (leftchar * 16 + v div 4)) (a2b_base64 3 (v mod 4) 0 cs)
             else
               map_sum id ((#) (leftchar * 64 + v)) (a2b_base64 0 0 0 cs)))"

definition urlsafe_b64decode :: "bytes \<Rightarrow> py_error + bytes" where
  "urlsafe_b64decode s =
     a2b_base64 0 0 0 (map (\<lambda>c. if c = 45 then 43 else if c = 95 then 47 else c) s)"

text \<open>\<open>b.rstrip(b"=")\<close>.\<close>

definition rstrip_pad :: "bytes \<Rightarrow> bytes" where
  "rstrip_pad s = rev (dropWhile (\<lambda>c. c = 61) (rev s))"

subsection \<open>The two functions of the source\<close>

definition encode_data :: "str \<Rightarrow> py_error + str" where
  "encode_data decoded =
     (case str_encode decoded of
        Inl e \<Rightarrow> Inl e
      | Inr bs \<Rightarrow> bytes_decode (rstrip_pad (urlsafe_b64encode bs)))"

text \<open>\<open>-len(encoded) % 8\<close> is Python's floor remainder, which is \<open>mod\<close> on \<open>int\<close>.\<close>

definition decode_data :: "str \<Rightarrow> py_error + str" where
  "decode_data encoded =
     (case str_encode encoded of
        Inl e \<Rightarrow> Inl e
      | Inr bs \<Rightarrow>
          (case urlsafe_b64decode (bs @ replicate (nat (- int (length encoded) mod 8)) 61) of
             Inl e \<Rightarrow> Inl e
           | Inr out \<Rightarrow> bytes_decode out))"

section \<open>The environment of a run\<close>

subsection \<open>Server, console and session\<close>

datatype http_method = GET | POST

text \<open>A row of a result page is the tuple of the values of its fields, in the order of
  the response; each value is modelled by the text \<open>csv.writer\<close> writes for it.\<close>

type_synonym row = "str list"

text \<open>One entry of the criteria list: its \<open>name\<close> and the \<open>value\<close> of each of its
  \<open>values\<close>, in order.\<close>

datatype criteria = Criteria (crit_name: str) (crit_values: "str list")

text \<open>What \<open>response.json()\<close> gives: the criteria list, the result page with its
  \<open>subheader\<close> and \<open>rows\<close>, or a body that is no JSON.\<close>

datatype payload = CriteriaJson "criteria list" | ResultsJson str "row list" | NotJson

text \<open>Of the headers of a response only \<open>Retry-After\<close> is read.\<close>

datatype response = Response (status_code: nat) (retry_after: "str option") (body: payload)

text \<open>What \<open>session.request\<close> does: it returns a response or raises (no connection).\<close>

datatype reply = Reply response | TransportError

datatype message =
    HttpErrorMsg nat
  | SleepMsg int
  | SkipMsg str str
  | WroteMsg str str str
  | MismatchMsg str str str
  | WriteErrorMsg py_error
  | FragmentMsg str str
  | ReportMsg int str str

text \<open>What a run does to the outside, in order: a request sent (method, URL, form data
  and the \<open>Cookie\<close> header of the session), a prompt shown by \<open>input\<close>, a sleep, a
  line printed.\<close>

datatype event =
    Request http_method str "(str \<times> str) list" "str option"
  | Prompt str
  | Sleep int
  | Print message

subsection \<open>Files\<close>

text \<open>
  The file system is a table from path names to nodes, in the order in which a directory
  scan lists them. A path is the text the program built (POSIX, \<open>/\<close> is 47); two
  spellings of one file are not identified. A CSV file is modelled by its rows.
\<close>

datatype node = File "row list" | Dir

type_synonym filesystem = "(str \<times> node) list"

text \<open>What happens to one attempt to write a fragment: nothing, \<open>open\<close> raises, or the
  writing raises after so many rows. \<open>KeyboardInterrupt\<close> is the one error here that is
  not an \<open>Exception\<close>.\<close>

datatype fault = NoFault | OpenFault py_error | WriteFault nat py_error

text \<open>
  The state of a run. \<open>replies\<close>, \<open>stdin\<close> and \<open>faults\<close> are what the environment will
  do next: the replies of the server to the successive requests (after the last one the
  connection fails), the lines typed at the prompts (after the last one \<open>input\<close> raises
  \<open>EOFError\<close>), the faults of the successive fragment writes (after the last one none).
  \<open>magic_dirs\<close> gives the directories \<open>glob\<close> expands a directory name with wildcard
  characters to. \<open>cookie\<close> is \<open>session.headers["Cookie"]\<close>, \<open>cache\<close> the one slot of
  \<open>functools.lru_cache(1)\<close> on \<open>get_results\<close> (one \<open>IceReport\<close> per run).
\<close>

record world =
  replies :: "reply list"
  stdin :: "str list"
  faults :: "fault list"
  magic_dirs :: "str \<Rightarrow> str list"
  files :: filesystem
  cookie :: "str option"
  cache :: "((str \<times> str) \<times> (str \<times> row list)) option"
  events :: "event list"

definition emit :: "event \<Rightarrow> world \<Rightarrow> world" where
  "emit e w = w\<lparr>events := events w @ [e]\<rparr>"

subsection \<open>\<open>os.path\<close>, \<open>os\<close>, \<open>shutil\<close> and \<open>glob\<close>\<close>

text \<open>\<open>posixpath.join\<close>: a component that starts with \<open>/\<close> replaces what came before.\<close>

fun path_join :: "str \<Rightarrow> str list \<Rightarrow> str" where
  "path_join path [] = path"
| "path_join path (b # bs) =
     path_join
       (if b \<noteq> [] \<and> hd b = 47 then b
        else if path = [] \<or> last path = 47 then path @ b
        else path @ 47 # b) bs"

text \<open>\<open>posixpath.dirname\<close>: the text up to the last \<open>/\<close>, its trailing slashes removed
  unless it consists of slashes only.\<close>

definition path_dirname :: "str \<Rightarrow> str" where
  "path_dirname p =
     (let head = rev (dropWhile (\<lambda>c. c \<noteq> 47) (rev p))
      in if head \<noteq> [] \<and> head \<noteq> replicate (length head) 47
         then rev (dropWhile (\<lambda>c. c = 47) (rev head))
         else head)"

definition isfile :: "filesystem \<Rightarrow> str \<Rightarrow> bool" where
  "isfile fs p = (case map_of fs p of Some (File _) \<Rightarrow> True | _ \<Rightarrow> False)"

definition isdir :: "filesystem \<Rightarrow> str \<Rightarrow> bool" where
  "isdir fs p = (map_of fs p = Some Dir)"

text \<open>\<open>os.makedirs(p, exist_ok=True)\<close>; of the directories it creates only \<open>p\<close> itself is
  recorded.\<close>

definition makedirs :: "filesystem \<Rightarrow> str \<Rightarrow> py_error + filesystem" where
  "makedirs fs p =
     (case map_of fs p of
        None \<Rightarrow> Inr (fs @ [(p, Dir)])
      | Some Dir \<Rightarrow> Inr fs
      | Some (File _) \<Rightarrow> Inl FileExistsError)"

text \<open>\<open>os.remove\<close>.\<close>

definition os_remove :: "filesystem \<Rightarrow> str \<Rightarrow> py_error + filesystem" where
  "os_remove fs p =
     (case map_of fs p of
        None \<Rightarrow> Inl FileNotFoundError
      | Some Dir \<Rightarrow> Inl OSError
      | Some (File _) \<Rightarrow> Inr (AList.delete p fs))"

text \<open>\<open>shutil.rmtree(d)\<close> removes \<open>d\<close> and everything below it.\<close>

definition below :: "str \<Rightarrow> str \<Rightarrow> bool" where
  "below d p \<longleftrightarrow> p = d \<or> prefix (d @ [47]) p"

definition rmtree :: "filesystem \<Rightarrow> str \<Rightarrow> filesystem" where
  "rmtree fs d = filter (\<lambda>(p, n). \<not> below d p) fs"

text \<open>The names in directory \<open>d\<close>, in scan order.\<close>

definition listdir :: "filesystem \<Rightarrow> str \<Rightarrow> str list" where
  "listdir fs d =
     filter (\<lambda>name. name \<noteq> [] \<and> 47 \<notin> set name)
       (map (drop (Suc (length d))) (filter (prefix (d @ [47])) (map fst fs)))"

text \<open>
  \<open>glob.glob(os.path.join(temp_dir, "*.csv"))\<close>. In a directory, \<open>*.csv\<close> matches the
  names that end with \<open>.csv\<close> and do not start with a dot (hidden names are left out).
  A directory name with one of \<open>* ? [\<close> in it is itself a pattern; what it expands to is
  up to the environment.
\<close>

definition has_magic :: "str \<Rightarrow> bool" where
  "has_magic s \<longleftrightarrow> (\<exists>c\<in>set s. c = 42 \<or> c = 63 \<or> c = 91)"

definition glob1_csv :: "filesystem \<Rightarrow> str \<Rightarrow> str list" where
  "glob1_csv fs d =
     filter (suffix (lit ''.csv'')) (filter (\<lambda>x. hd x \<noteq> 46) (listdir fs d))"

definition glob_csv :: "world \<Rightarrow> str \<Rightarrow> str list" where
  "glob_csv w temp_dir =
     concat (map (\<lambda>d. map (\<lambda>name. path_join d [name]) (glob1_csv (files w) d))
                 (if has_magic temp_dir then magic_dirs w temp_dir else [temp_dir]))"

text \<open>\<open>str(n)\<close> of an \<open>int\<close>.\<close>

fun nat_digits :: "nat \<Rightarrow> str" where
  "nat_digits n = (if n < 10 then [48 + n] else nat_digits (n div 10) @ [48 + n mod 10])"

definition py_str_int :: "int \<Rightarrow> str" where
  "py_str_int i = (if i < 0 then 45 # nat_digits (nat (- i)) else nat_digits (nat i))"

text \<open>\<open>str.strip()\<close>: the white space of \<open>str.isspace\<close>.\<close>

definition py_isspace :: "nat \<Rightarrow> bool" where
  "py_isspace c \<longleftrightarrow> int_space c \<or> (28 \<le> c \<and> c \<le> 31)"

definition py_strip :: "str \<Rightarrow> str" where
  "py_strip s = rev (dropWhile py_isspace (rev (dropWhile py_isspace s)))"

section \<open>IceReport\<close>

text \<open>\<open>join_url\<close>. \<open>urllib.parse.urljoin\<close> is taken as a parameter.\<close>

fun join_url_paths :: "(str \<Rightarrow> str \<Rightarrow> str) \<Rightarrow> str \<Rightarrow> str list \<Rightarrow> str" where
  "join_url_paths urljoin base [] = base"
| "join_url_paths urljoin base (path # paths) =
     join_url_paths urljoin (if path \<noteq> [] then urljoin base path @ [47] else base) paths"

definition join_url :: "(str \<Rightarrow> str \<Rightarrow> str) \<Rightarrow> str \<Rightarrow> str list \<Rightarrow> str" where
  "join_url urljoin base paths =
     butlast (join_url_paths urljoin
                (if base \<noteq> [] \<and> last base = 47 then base else base @ [47]) paths)"

definition MARKET_KEY :: str where
  "MARKET_KEY = lit ''selectedMarket''"

definition TIME_PERIOD_KEY :: str where
  "TIME_PERIOD_KEY = lit ''selectedTimePeriod''"

record report =
  report_id :: int
  market_filter :: "py_range list"
  time_period_filter :: "py_range list"
  column_filter :: "py_range list"
  base_dir :: str
  cookie_url :: str
  criteria_url :: str
  results_url :: str

text \<open>\<open>IceReport.__init__\<close>: the three filters are parsed first, in this order; the
  session is created last and nothing is sent.\<close>

definition IceReport_init ::
  "(str \<Rightarrow> str \<Rightarrow> str) \<Rightarrow> int \<Rightarrow> str \<Rightarrow> str \<Rightarrow> str \<Rightarrow> str \<Rightarrow> str \<Rightarrow> py_error + report" where
  "IceReport_init urljoin rid market_spec time_period_spec column_spec bdir base_url =
     (case IndexFilter_init market_spec of
        Inl e \<Rightarrow> Inl e
      | Inr mf \<Rightarrow>
     (case IndexFilter_init time_period_spec of
        Inl e \<Rightarrow> Inl e
      | Inr tf \<Rightarrow>
     (case IndexFilter_init column_spec of
        Inl e \<Rightarrow> Inl e
      | Inr cf \<Rightarrow>
          (let api_url = join_url urljoin base_url
                   [lit ''marketdata'', lit ''api'', lit ''reports'', py_str_int rid]
           in Inr \<lparr>report_id = rid, market_filter = mf, time_period_filter = tf,
                    column_filter = cf, base_dir = bdir,
                    cookie_url = join_url urljoin base_url [lit ''report'', py_str_int rid],
                    criteria_url = join_url urljoin api_url [lit ''criteria''],
                    results_url = join_url urljoin api_url [lit ''results'']\<rparr>))))"

subsection \<open>\<open>IceReport.request\<close>\<close>

text \<open>\<open>Response.raise_for_status\<close> raises \<open>HTTPError\<close> for the statuses 400 to 599 and
  for no other.\<close>

definition raise_for_status :: "response \<Rightarrow> py_error + unit" where
  "raise_for_status r =
     (if 400 \<le> status_code r \<and> status_code r < 600 then Inl (HTTPError (status_code r))
      else Inr ())"

text \<open>The \<open>while True\<close> loop. Every turn takes one reply of the server, so the loop is
  followed for as long as the environment answers. \<open>time.sleep\<close> raises \<open>ValueError\<close> on
  a negative number.\<close>

function request ::
  "report \<Rightarrow> http_method \<Rightarrow> str \<Rightarrow> (str \<times> str) list \<Rightarrow> world \<Rightarrow> (py_error + response) \<times> world" where
  "request self method url data w =
     (case replies w of
        [] \<Rightarrow> (Inl ConnectionError, emit (Request method url data (cookie w)) w)
      | TransportError # rs \<Rightarrow>
          (Inl ConnectionError, emit (Request method url data (cookie w)) (w\<lparr>replies := rs\<rparr>))
      | Reply r # rs \<Rightarrow>
          (let w1 = emit (Request method url data (cookie w)) (w\<lparr>replies := rs\<rparr>)
           in case raise_for_status r of
                Inr _ \<Rightarrow> (Inr r, w1)
              | Inl error \<Rightarrow>
                  (let w2 = emit (Print (HttpErrorMsg (status_code r))) w1
                   in if status_code r = 409 then
                        (let w3 = emit (Prompt (cookie_url self)) w2
                         in case stdin w3 of
                              [] \<Rightarrow> (Inl EOFError, w3)
                            | line # lines \<Rightarrow>
                                request self method url data
                                  (w3\<lparr>stdin := lines, cookie := Some (py_strip line)\<rparr>))
                      else if status_code r = 429 then
                        (case retry_after r of
                           None \<Rightarrow> (Inl KeyError, w2)
                         | Some h \<Rightarrow>
                             (case py_int h of
                                Inl e \<Rightarrow> (Inl e, w2)
                              | Inr n \<Rightarrow>
                                  (let w3 = emit (Print (SleepMsg n)) w2
                                   in if n < 0 then (Inl ValueError, w3)
                                      else request self method url data (emit (Sleep n) w3))))
                      else (Inl error, w2))))"
  by pat_completeness auto
termination
  by (relation "measure (\<lambda>(self, method, url, data, w). length (replies w))")
     (auto simp: emit_def)

subsection \<open>\<open>get_criteria\<close> and \<open>get_results\<close>\<close>

fun criteria_loop :: "str list \<times> str list \<Rightarrow> criteria list \<Rightarrow> str list \<times> str list" where
  "criteria_loop (markets, time_periods) [] = (markets, time_periods)"
| "criteria_loop (markets, time_periods) (c # cs) =
     criteria_loop
       (if crit_name c = MARKET_KEY then (crit_values c, time_periods)
        else if crit_name c = TIME_PERIOD_KEY then (markets, crit_values c)
        else (markets, time_periods)) cs"

definition get_criteria :: "report \<Rightarrow> world \<Rightarrow> (py_error + str list \<times> str list) \<times> world" where
  "get_criteria self w =
     (case request self GET (criteria_url self) [] w of
        (Inl e, w1) \<Rightarrow> (Inl e, w1)
      | (Inr r, w1) \<Rightarrow>
          (case body r of
             CriteriaJson cs \<Rightarrow> (Inr (criteria_loop ([], []) cs), w1)
           | ResultsJson _ _ \<Rightarrow> (Inl TypeError, w1)
           | NotJson \<Rightarrow> (Inl JSONDecodeError, w1)))"

text \<open>The body of \<open>get_results\<close>, then the method as \<open>functools.lru_cache(1)\<close> wraps it:
  a call with the key of the slot returns the stored value and does not run the body;
  any other call runs the body and, if it returns, stores the new key and value in place
  of the old ones. A call that raises leaves the slot as it was.\<close>

definition get_results_body ::
  "report \<Rightarrow> str \<Rightarrow> str \<Rightarrow> world \<Rightarrow> (py_error + str \<times> row list) \<times> world" where
  "get_results_body self market time_period w =
     (case request self POST (results_url self)
             [(MARKET_KEY, market), (TIME_PERIOD_KEY, time_period)] w of
        (Inl e, w1) \<Rightarrow> (Inl e, w1)
      | (Inr r, w1) \<Rightarrow>
          (case body r of
             ResultsJson subheader rows \<Rightarrow> (Inr (subheader, rows), w1)
           | CriteriaJson _ \<Rightarrow> (Inl TypeError, w1)
           | NotJson \<Rightarrow> (Inl JSONDecodeError, w1)))"

definition cache_hit :: "world \<Rightarrow> str \<Rightarrow> str \<Rightarrow> (str \<times> row list) option" where
  "cache_hit w market time_period =
     (case cache w of
        None \<Rightarrow> None
      | Some (key, page) \<Rightarrow> if key = (market, time_period) then Some page else None)"

definition get_results ::
  "report \<Rightarrow> str \<Rightarrow> str \<Rightarrow> world \<Rightarrow> (py_error + str \<times> row list) \<times> world" where
  "get_results self market time_period w =
     (case cache_hit w market time_period of
        Some page \<Rightarrow> (Inr page, w)
      | None \<Rightarrow>
          (case get_results_body self market time_period w of
             (Inl e, w1) \<Rightarrow> (Inl e, w1)
           | (Inr page, w1) \<Rightarrow> (Inr page, w1\<lparr>cache := Some ((market, time_period), page)\<rparr>)))"

subsection \<open>\<open>IceReport.dump\<close>\<close>

text \<open>
  \<open>with open(path, "w", newline="") as file: csv.writer(file).writerows(rows)\<close>, under
  the next fault of the environment. Opening a directory for writing raises.
\<close>

definition write_fragment :: "str \<Rightarrow> row list \<Rightarrow> world \<Rightarrow> (py_error + unit) \<times> world" where
  "write_fragment path rows w =
     (let w1 = w\<lparr>faults := tl (faults w)\<rparr>
      in case (case faults w of [] \<Rightarrow> NoFault | f # _ \<Rightarrow> f) of
           OpenFault e \<Rightarrow> (Inl e, w1)
         | WriteFault k e \<Rightarrow>
             if isdir (files w) path then (Inl OSError, w1)
             else (Inl e, w1\<lparr>files := AList.update path (File (take k rows)) (files w)\<rparr>)
         | NoFault \<Rightarrow>
             if isdir (files w) path then (Inl OSError, w1)
             else (Inr (), w1\<lparr>files := AList.update path (File rows) (files w)\<rparr>))"

text \<open>
  The body of the loop over the markets of one time period, in three parts. The loop
  carries \<open>date\<close> and \<open>temp_dir\<close>, both \<open>""\<close> at first.

  First the block \<open>if not date:\<close>, which asks for the page of the market to learn the
  label of the period, and creates the fragment directory.
\<close>

definition fetch_label ::
  "report \<Rightarrow> str \<Rightarrow> str \<Rightarrow> str \<times> str \<Rightarrow> world \<Rightarrow> (py_error + str \<times> str) \<times> world" where
  "fetch_label self time_period market st w =
     (if fst st = [] then
        (case get_results self market time_period w of
           (Inl e, w1) \<Rightarrow> (Inl e, w1)
         | (Inr page, w1) \<Rightarrow>
             (let temp_dir = path_join (base_dir self)
                               [fst page, 126 # py_str_int (report_id self)]
              in case makedirs (files w1) temp_dir of
                   Inl e \<Rightarrow> (Inl e, w1)
                 | Inr fs \<Rightarrow> (Inr (fst page, temp_dir), w1\<lparr>files := fs\<rparr>)))
      else (Inr st, w))"

text \<open>Then the \<open>try\<close> statement that writes the fragment. \<open>except Exception\<close> does not
  catch \<open>KeyboardInterrupt\<close>; the handler prints, removes the file and raises again.\<close>

definition save_fragment ::
  "report \<Rightarrow> str \<Rightarrow> str \<Rightarrow> str \<Rightarrow> row list \<Rightarrow> world \<Rightarrow> (py_error + unit) \<times> world" where
  "save_fragment self time_period market path rows w =
     (case write_fragment path (map (IndexFilter_filter (column_filter self)) rows) w of
        (Inr _, w3) \<Rightarrow> (Inr (), emit (Print (WroteMsg market time_period path)) w3)
      | (Inl exception, w3) \<Rightarrow>
          if exception = KeyboardInterrupt then (Inl exception, w3)
          else
            (let w4 = emit (Print (WriteErrorMsg exception)) w3
             in case os_remove (files w4) path of
                  Inl e \<Rightarrow> (Inl e, w4)
                | Inr fs \<Rightarrow> (Inl exception, w4\<lparr>files := fs\<rparr>)))"

text \<open>The whole body.\<close>

definition dump_market ::
  "report \<Rightarrow> str \<Rightarrow> str \<Rightarrow> str \<times> str \<Rightarrow> world \<Rightarrow> (py_error + str \<times> str) \<times> world" where
  "dump_market self time_period market st w =
     (case fetch_label self time_period market st w of
        (Inl e, w1) \<Rightarrow> (Inl e, w1)
      | (Inr (date, temp_dir), w1) \<Rightarrow>
          (case encode_data market of
             Inl e \<Rightarrow> (Inl e, w1)
           | Inr name \<Rightarrow>
               (let path = path_join temp_dir [name @ lit ''.csv'']
                in if isfile (files w1) path then
                     (Inr (date, temp_dir), emit (Print (SkipMsg market time_period)) w1)
                   else
                     (case get_results self market time_period w1 of
                        (Inl e, w2) \<Rightarrow> (Inl e, w2)
                      | (Inr (subheader, rows), w2) \<Rightarrow>
                          if date = subheader then
                            (case save_fragment self time_period market path rows w2 of
                               (Inl e, w3) \<Rightarrow> (Inl e, w3)
                             | (Inr _, w3) \<Rightarrow> (Inr (date, temp_dir), w3))
                          else
                            (Inr (date, temp_dir),
                             emit (Print (MismatchMsg market time_period subheader)) w2)))))"

fun dump_markets ::
  "report \<Rightarrow> str \<Rightarrow> str list \<Rightarrow> str \<times> str \<Rightarrow> world \<Rightarrow> (py_error + str \<times> str) \<times> world" where
  "dump_markets self time_period [] st w = (Inr st, w)"
| "dump_markets self time_period (market # markets) st w =
     (case dump_market self time_period market st w of
        (Inl e, w1) \<Rightarrow> (Inl e, w1)
      | (Inr st1, w1) \<Rightarrow> dump_markets self time_period markets st1 w1)"

text \<open>The merge after the markets of a period. \<open>file_rows\<close> is what \<open>csv.reader\<close> reads
  from a path; the loop below is the loop over the paths \<open>glob\<close> returned, with the rows
  written so far.\<close>

definition file_rows :: "filesystem \<Rightarrow> str \<Rightarrow> row list" where
  "file_rows fs p = (case map_of fs p of Some (File rows) \<Rightarrow> rows | _ \<Rightarrow> [])"

fun merge_loop :: "str \<Rightarrow> str list \<Rightarrow> row list \<Rightarrow> world \<Rightarrow> row list \<times> world" where
  "merge_loop date [] written w = (written, w)"
| "merge_loop date (path # paths) written w =
     merge_loop date paths
       (if isfile (files w) path then written @ file_rows (files w) path else written)
       (emit (Print (FragmentMsg path date)) w)"

definition consolidate :: "report \<Rightarrow> str \<Rightarrow> str \<Rightarrow> world \<Rightarrow> (py_error + unit) \<times> world" where
  "consolidate self date temp_dir w =
     (if temp_dir \<noteq> [] \<and> isdir (files w) temp_dir then
        (let base_path = path_join (path_dirname temp_dir)
                           [py_str_int (report_id self) @ lit ''.csv'']
         in if isdir (files w) base_path then (Inl OSError, w)
            else
              (let w1 = w\<lparr>files := AList.update base_path (File []) (files w)\<rparr>;
                   (written, w2) = merge_loop date (glob_csv w1 temp_dir) [] w1;
                   w3 = emit (Print (ReportMsg (report_id self) date base_path))
                          (w2\<lparr>files := AList.update base_path (File written) (files w2)\<rparr>)
               in (Inr (), w3\<lparr>files := rmtree (files w3) temp_dir\<rparr>)))
      else (Inr (), w))"

definition dump_period :: "report \<Rightarrow> str list \<Rightarrow> str \<Rightarrow> world \<Rightarrow> (py_error + unit) \<times> world" where
  "dump_period self markets time_period w =
     (case dump_markets self time_period
             (IndexFilter_filter (market_filter self) markets) ([], []) w of
        (Inl e, w1) \<Rightarrow> (Inl e, w1)
      | (Inr (date, temp_dir), w1) \<Rightarrow> consolidate self date temp_dir w1)"

fun dump_periods ::
  "report \<Rightarrow> str list \<Rightarrow> str list \<Rightarrow> world \<Rightarrow> (py_error + unit) \<times> world" where
  "dump_periods self markets [] w = (Inr (), w)"
| "dump_periods self markets (time_period # time_periods) w =
     (case dump_period self markets time_period w of
        (Inl e, w1) \<Rightarrow> (Inl e, w1)
      | (Inr _, w1) \<Rightarrow> dump_periods self markets time_periods w1)"

definition dump :: "report \<Rightarrow> world \<Rightarrow> (py_error + unit) \<times> world" where
  "dump self w =
     (case get_criteria self w of
        (Inl e, w1) \<Rightarrow> (Inl e, w1)
      | (Inr (markets, time_periods), w1) \<Rightarrow>
          dump_periods self markets
            (IndexFilter_filter (time_period_filter self) time_periods) w1)"

subsection \<open>\<open>main\<close>\<close>

definition BASE_URL :: str where
  "BASE_URL = lit ''https://www.ice.com''"

text \<open>\<open>main\<close> after \<open>parse_args\<close>: the report is built from the arguments, then dumped.\<close>

definition main ::
  "(str \<Rightarrow> str \<Rightarrow> str) \<Rightarrow> int \<Rightarrow> str \<Rightarrow> str \<Rightarrow> str \<Rightarrow> str \<Rightarrow> world \<Rightarrow> (py_error + unit) \<times> world" where
  "main urljoin rid market_spec time_period_spec column_spec bdir w =
     (case IceReport_init urljoin rid market_spec time_period_spec column_spec bdir BASE_URL of
        Inl e \<Rightarrow> (Inl e, w)
      | Inr self \<Rightarrow> dump self w)"

section \<open>The claims in the words of the specification\<close>

text \<open>Parsing a filter and asking it about an index.\<close>

definition spec_matches :: "str \<Rightarrow> int \<Rightarrow> py_error + bool" where
  "spec_matches filters index =
     map_sum id (\<lambda>fs. IndexFilter_call fs index) (IndexFilter_init filters)"

text \<open>The tokens as the specification describes them: the input split on commas, each
  token with the white space around it stripped (\<open>str.strip\<close>), the empty ones ignored.\<close>

definition spec_tokens :: "str \<Rightarrow> str list" where
  "spec_tokens filters = filter (\<lambda>t. t \<noteq> []) (map py_strip (py_split 44 filters))"

text \<open>A piece of text is an integer if \<open>int\<close> accepts it.\<close>

definition is_integer :: "str \<Rightarrow> bool" where
  "is_integer t \<longleftrightarrow> \<not> isl (py_int t)"

text \<open>The failure condition as the specification words it: a token without hyphen that
  is not an integer, or a token with a hyphen one of whose non-empty parts is not an
  integer.\<close>

definition spec_parse_fails :: "str \<Rightarrow> bool" where
  "spec_parse_fails filters \<longleftrightarrow>
     list_ex (\<lambda>t. if 45 \<in> set t
                  then list_ex (\<lambda>p. p \<noteq> [] \<and> \<not> is_integer p) (py_split 45 t)
                  else \<not> is_integer t)
             (filter_tokens filters)"

text \<open>A bounded token \<open>a-b\<close> with integer bounds \<open>a \<ge> b\<close>.\<close>

definition inverted_token :: "str \<Rightarrow> bool" where
  "inverted_token t \<longleftrightarrow>
     (case py_split 45 t of
        [a_s, b_s] \<Rightarrow>
          a_s \<noteq> [] \<and> b_s \<noteq> [] \<and>
          (case (py_int a_s, py_int b_s) of
             (Inr a, Inr b) \<Rightarrow> a \<ge> b
           | _ \<Rightarrow> False)
      | _ \<Rightarrow> False)"

text \<open>A world in which nothing has happened yet and nothing is on disk.\<close>

definition fresh_world :: "reply list \<Rightarrow> str list \<Rightarrow> fault list \<Rightarrow> filesystem \<Rightarrow> world" where
  "fresh_world rs lines fts fs =
     \<lparr>replies = rs, stdin = lines, faults = fts, magic_dirs = (\<lambda>_. []), files = fs,
      cookie = None, cache = None, events = []\<rparr>"

text \<open>A Unicode scalar value: a code point that is not a surrogate. These are the code
  points UTF-8 encodes.\<close>

definition is_scalar :: "nat \<Rightarrow> bool" where
  "is_scalar c \<longleftrightarrow> c < 1114112 \<and> \<not> is_surrogate c"

text \<open>The characters of \<open>b2a_base64\<close> before the padding, and the number of \<open>=\<close> that
  complete the last group.\<close>

fun b64_body :: "bytes \<Rightarrow> bytes" where
  "b64_body (a # b # c # r) =
     b64_char (a div 4) # b64_char (a mod 4 * 16 + b div 16) #
     b64_char (b mod 16 * 4 + c div 64) # b64_char (c mod 64) # b64_body r"
| "b64_body [a, b] =
     [b64_char (a div 4), b64_char (a mod 4 * 16 + b div 16), b64_char (b mod 16 * 4)]"
| "b64_body [a] = [b64_char (a div 4), b64_char (a mod 4 * 16)]"
| "b64_body [] = []"

fun b64_pad :: "bytes \<Rightarrow> nat" where
  "b64_pad (a # b # c # r) = b64_pad r"
| "b64_pad [a, b] = 1"
| "b64_pad [a] = 2"
| "b64_pad [] = 0"

text \<open>A report to run examples with: report 1, every market, the first time period,
  every column, output below \<open>pyce\<close>.\<close>

definition example_report :: report where
  "example_report =
     \<lparr>report_id = 1, market_filter = [PyRange 0 sys_maxsize],
      time_period_filter = [PyRange 0 (- 1)], column_filter = [PyRange 0 sys_maxsize],
      base_dir = lit ''pyce'', cookie_url = lit ''https://www.ice.com/report/1'',
      criteria_url = lit ''https://www.ice.com/marketdata/api/reports/1/criteria'',
      results_url = lit ''https://www.ice.com/marketdata/api/reports/1/results''\<rparr>"



text \<open>The path of the merged file of a fragment directory, and the paths \<open>glob\<close> lists in
  a directory without wildcard characters in its name.\<close>

definition merged_path :: "report \<Rightarrow> str \<Rightarrow> str" where
  "merged_path self temp_dir =
     path_join (path_dirname temp_dir) [py_str_int (report_id self) @ lit ''.csv'']"


section \<open>Lemmas about splitting, \<open>int\<close> and the filter\<close>

lemma py_split_not_Nil: "py_split sep s \<noteq> []"
  by (induction s) (auto split: list.splits)

lemma py_join_split: "py_join sep (py_split sep s) = s"
proof (induction s)
  case Nil
  then show ?case by simp
next
  case (Cons c cs)
  obtain p ps where ps: "py_split sep cs = p # ps"
    using py_split_not_Nil [of sep cs] by (cases "py_split sep cs") auto
  with Cons show ?case by (cases ps) auto
qed

lemma py_split_no_sep: "p \<in> set (py_split sep s) \<Longrightarrow> sep \<notin> set p"
  by (induction s arbitrary: p) (auto split: if_splits list.splits)

lemma py_split_free: "sep \<notin> set p \<Longrightarrow> py_split sep p = [p]"
  by (induction p) auto

lemma py_split_append: "sep \<notin> set p \<Longrightarrow> py_split sep (p @ sep # r) = p # py_split sep r"
  by (induction p) auto

lemma py_split_join:
  "ps \<noteq> [] \<Longrightarrow> \<forall>p\<in>set ps. sep \<notin> set p \<Longrightarrow> py_split sep (py_join sep ps) = ps"
  by (induction sep ps rule: py_join.induct) (auto simp: py_split_free py_split_append)

lemma length_py_split: "length (py_split sep s) = Suc (length (filter (\<lambda>c. c = sep) s))"
  by (induction s) (auto split: list.splits simp: py_split_not_Nil)

lemma py_int_unsigned_error: "py_int_unsigned s = Inl e \<Longrightarrow> e = ValueError"
  by (auto simp: py_int_unsigned_def split: if_splits)

lemma py_int_error: "py_int s = Inl e \<Longrightarrow> e = ValueError"
  by (auto simp: py_int_def map_sum_def split: list.splits if_splits sum.splits dest: py_int_unsigned_error)

lemma parse_filter_error: "parse_filter t = Inl e \<Longrightarrow> e = ValueError"
  by (auto simp: parse_filter_def split: list.splits if_splits sum.splits dest: py_int_error)

lemma strip_space_subset: "set (strip_space s) \<subseteq> set s"
proof -
  have "set (strip_space s) \<subseteq> set (dropWhile int_space s)"
    unfolding strip_space_def using set_dropWhileD by fastforce
  also have "\<dots> \<subseteq> set s" using set_dropWhileD by fastforce
  finally show ?thesis .
qed

lemma py_int_nonneg: "py_int s = Inr n \<Longrightarrow> 45 \<notin> set s \<Longrightarrow> 0 \<le> n"
proof -
  assume a: "py_int s = Inr n" and b: "45 \<notin> set s"
  from b strip_space_subset [of s] have "45 \<notin> set (strip_space s)" by blast
  with a show ?thesis
    by (auto simp: py_int_def map_sum_def split: list.splits if_splits sum.splits)
qed

lemmas int_eval = py_int_def strip_space_def int_space_def py_int_unsigned_def digits_ok_def
  is_digit_def digit_value_def int_max_str_digits_def

lemmas filter_eval = IndexFilter_init_def filter_tokens_def parse_filter_def int_eval

lemma IndexFilter_scan_iff:
  "IndexFilter_scan fs index \<longleftrightarrow>
     (\<exists>f\<in>set fs. if stop f = - 1 then index = start f else in_range index f)"
  by (induction fs) auto

lemma IndexFilter_append_error:
  "IndexFilter_append acc ts = Inl e \<longleftrightarrow> e = ValueError \<and> (\<exists>t\<in>set ts. isl (parse_filter t))"
  by (induction ts arbitrary: acc) (auto split: sum.splits dest: parse_filter_error)

lemma IndexFilter_append_ok:
  "\<forall>t\<in>set ts. \<not> isl (parse_filter t) \<Longrightarrow>
   IndexFilter_append acc ts = Inr (acc @ map (\<lambda>t. projr (parse_filter t)) ts)"
  by (induction ts arbitrary: acc) (auto split: sum.splits)

lemma parse_filter_isl:
  "isl (parse_filter t) \<longleftrightarrow>
     (if 45 \<in> set t
      then length (filter (\<lambda>c. c = 45) t) > 1 \<or>
           (\<exists>p\<in>set (py_split 45 t). p \<noteq> [] \<and> \<not> is_integer p)
      else \<not> is_integer t)"
proof (cases "45 \<in> set t")
  case False
  then show ?thesis
    by (auto simp: parse_filter_def is_integer_def split: sum.splits)
next
  case True
  then have pos: "length (filter (\<lambda>c. c = 45) t) > 0"
    by (simp add: filter_empty_conv length_greater_0_conv)
  show ?thesis
  proof (cases "length (filter (\<lambda>c. c = 45) t) > 1")
    case True
    then have "length (py_split 45 t) > 2" by (simp add: length_py_split)
    then have "isl (parse_filter t)"
      using \<open>45 \<in> set t\<close> by (auto simp: parse_filter_def split: list.splits)
    with True \<open>45 \<in> set t\<close> show ?thesis by simp
  next
    case False
    with pos have "length (filter (\<lambda>c. c = 45) t) = 1" by arith
    then have "length (py_split 45 t) = 2" by (simp add: length_py_split)
    then obtain a b where ab: "py_split 45 t = [a, b]"
      by (auto simp: length_Suc_conv numeral_2_eq_2)
    with False \<open>45 \<in> set t\<close> show ?thesis
      by (auto simp: parse_filter_def is_integer_def split: sum.splits)
  qed
qed

lemma IndexFilter_init_error: "IndexFilter_init filters = Inl e \<Longrightarrow> e = ValueError"
  by (simp add: IndexFilter_init_def IndexFilter_append_error)

lemma IceReport_init_error:
  assumes "isl (IndexFilter_init ms) \<or> isl (IndexFilter_init ts) \<or> isl (IndexFilter_init cs)"
  shows "IceReport_init urljoin rid ms ts cs bdir base_url = Inl ValueError"
proof (cases "IndexFilter_init ms")
  case (Inl e)
  then show ?thesis using IndexFilter_init_error [OF Inl] by (simp add: IceReport_init_def)
next
  case m: (Inr mf)
  show ?thesis
  proof (cases "IndexFilter_init ts")
    case (Inl e)
    then show ?thesis using IndexFilter_init_error [OF Inl] m by (simp add: IceReport_init_def)
  next
    case t: (Inr tf)
    show ?thesis
    proof (cases "IndexFilter_init cs")
      case (Inl e)
      then show ?thesis using IndexFilter_init_error [OF Inl] m t by (simp add: IceReport_init_def)
    next
      case (Inr cf)
      with m t assms show ?thesis by simp
    qed
  qed
qed

lemma inverted_parse:
  assumes "inverted_token t"
  shows "\<exists>r. parse_filter t = Inr r \<and> stop r \<le> start r \<and> stop r \<noteq> - 1"
proof -
  from assms obtain a_s b_s a b where sp: "py_split 45 t = [a_s, b_s]"
    and ne: "a_s \<noteq> []" "b_s \<noteq> []" and ia: "py_int a_s = Inr a" and ib: "py_int b_s = Inr b"
    and le: "b \<le> a"
    by (auto simp: inverted_token_def split: list.splits sum.splits)
  have "length (filter (\<lambda>c. c = 45) t) = 1"
    using length_py_split [of 45 t] sp by simp
  then have "filter (\<lambda>c. c = 45) t \<noteq> []" by auto
  then have mem: "45 \<in> set t" by (auto simp: filter_empty_conv)
  have "b_s \<in> set (py_split 45 t)" using sp by simp
  then have "45 \<notin> set b_s" by (rule py_split_no_sep)
  with ib have "0 \<le> b" by (rule py_int_nonneg)
  with sp ne ia ib le mem show ?thesis
    by (simp add: parse_filter_def)
qed

lemma empty_range_no_match:
  "\<forall>r\<in>set fs. stop r \<le> start r \<and> stop r \<noteq> - 1 \<Longrightarrow> \<not> IndexFilter_scan fs index"
  by (induction fs) (auto simp: in_range_def)

section \<open>The claims about the index filter\<close>

text \<open>
  C2, as the code has it. A filter accepts an index if it stores nothing, or if some
  stored entry accepts it: a singleton (stop \<open>-1\<close>) its own value, a range the indices
  from its start up to, not including, its stop. Concretely the empty text accepts every
  index, \<open>"2-5"\<close> exactly 2, 3 and 4, \<open>"-5"\<close> exactly the indices from 0 to 4, \<open>"3"\<close> only
  3, and \<open>"2-"\<close> the indices from 2 up to, not including, \<open>sys.maxsize\<close>.
\<close>

theorem C2_matches:
  "(IndexFilter_call fs index \<longleftrightarrow>
      fs = [] \<or>
      (\<exists>f\<in>set fs. if stop f = - 1 then index = start f
                    else start f \<le> index \<and> index < stop f)) \<and>
   spec_matches [] index = Inr True \<and>
   spec_matches (lit ''2-5'') index = Inr (index \<in> {2, 3, 4}) \<and>
   spec_matches (lit ''2-'') index = Inr (2 \<le> index \<and> index < sys_maxsize) \<and>
   spec_matches (lit ''-5'') index = Inr (0 \<le> index \<and> index < 5) \<and>
   spec_matches (lit ''3'') index = Inr (index = 3)"
proof (intro conjI)
  show "IndexFilter_call fs index \<longleftrightarrow>
      fs = [] \<or>
      (\<exists>f\<in>set fs. if stop f = - 1 then index = start f
                    else start f \<le> index \<and> index < stop f)"
    by (simp add: IndexFilter_call_def IndexFilter_scan_iff in_range_def)
  show "spec_matches [] index = Inr True"
    by (simp add: spec_matches_def filter_eval IndexFilter_call_def)
  show "spec_matches (lit ''2-5'') index = Inr (index \<in> {2, 3, 4})"
    by (auto simp add: spec_matches_def filter_eval IndexFilter_call_def in_range_def)
  show "spec_matches (lit ''2-'') index = Inr (2 \<le> index \<and> index < sys_maxsize)"
    by (simp add: spec_matches_def filter_eval IndexFilter_call_def in_range_def sys_maxsize_def)
  show "spec_matches (lit ''-5'') index = Inr (0 \<le> index \<and> index < 5)"
    by (simp add: spec_matches_def filter_eval IndexFilter_call_def in_range_def)
  show "spec_matches (lit ''3'') index = Inr (index = 3)"
    by (simp add: spec_matches_def filter_eval IndexFilter_call_def in_range_def)
qed

theorem C2_matches_witness:
  "IndexFilter_call [PyRange 2 5, PyRange 7 (- 1)] 7 \<and>
   \<not> IndexFilter_call [PyRange 2 5, PyRange 7 (- 1)] 5"
  using C2_matches [of "[PyRange 2 5, PyRange 7 (- 1)]" 7]
        C2_matches [of "[PyRange 2 5, PyRange 7 (- 1)]" 5]
  by simp

text \<open>
  C2 as stated fails for \<open>"2-"\<close>: the open end is stored as \<open>sys.maxsize\<close>, so the index
  \<open>sys.maxsize\<close> itself, which is at least 2, is not accepted.
\<close>

theorem C2_open_end_counterexample:
  "(2 :: int) \<le> 9223372036854775807 \<and>
   spec_matches (lit ''2-'') 9223372036854775807 = Inr False"
  by (simp add: spec_matches_def filter_eval IndexFilter_call_def in_range_def sys_maxsize_def)

text \<open>
  C8, as the code has it. The input is split on commas: the pieces hold no comma and
  joined with commas give the input back. From every piece all spaces (U+0020) are
  removed, those inside the piece too, nothing else is removed, and the pieces that are
  empty after that are dropped.
\<close>

theorem C8_tokens:
  "(\<forall>p\<in>set (py_split 44 filters). 44 \<notin> set p) \<and>
   py_join 44 (py_split 44 filters) = filters \<and>
   (ps \<noteq> [] \<and> (\<forall>p\<in>set ps. 44 \<notin> set p) \<longrightarrow>
      py_split 44 (py_join 44 ps) = ps \<and>
      filter_tokens (py_join 44 ps) =
        filter (\<lambda>t. t \<noteq> []) (map (filter (\<lambda>c. c \<noteq> 32)) ps))"
  using py_split_no_sep [of _ 44 filters] py_split_join [of ps 44]
  by (auto simp: py_join_split filter_tokens_def)

theorem C8_tokens_witness:
  "filter_tokens (lit ''1 2, ,3-'') = [lit ''12'', lit ''3-'']"
  using C8_tokens [of "lit ''1 2, ,3-''" "[lit ''1 2'', lit '' '', lit ''3-'']"]
  by simp

text \<open>
  C8 as stated fails: stripping the white space around the token \<open>"1 2"\<close> leaves
  \<open>"1 2"\<close>, but the code removes the space inside and reads the token as 12.
\<close>

theorem C8_inner_space_counterexample:
  "spec_tokens (lit ''1 2'') = [lit ''1 2''] \<and>
   filter_tokens (lit ''1 2'') = [lit ''12''] \<and>
   IndexFilter_init (lit ''1 2'') = Inr [PyRange 12 (- 1)]"
  by (simp add: spec_tokens_def py_strip_def py_isspace_def filter_eval)

text \<open>
  C10. A token \<open>a-b\<close> with integer bounds \<open>a \<ge> b\<close> is parsed without error and its entry
  accepts no index; a filter text with at least one token, all of this kind, gives a
  non-empty filter that accepts no index.
\<close>

theorem C10_inverted_bounds:
  "(inverted_token t \<longrightarrow>
      (\<exists>r. parse_filter t = Inr r \<and> (\<forall>index. \<not> IndexFilter_call [r] index))) \<and>
   (filter_tokens filters \<noteq> [] \<and> (\<forall>t\<in>set (filter_tokens filters). inverted_token t) \<longrightarrow>
      (\<exists>fs. IndexFilter_init filters = Inr fs \<and> fs \<noteq> [] \<and>
            (\<forall>index. \<not> IndexFilter_call fs index)))"
proof (intro conjI impI)
  assume "inverted_token t"
  from inverted_parse [OF this] obtain r where r: "parse_filter t = Inr r"
    "stop r \<le> start r" "stop r \<noteq> - 1" by blast
  then have "\<forall>index. \<not> IndexFilter_call [r] index"
    by (simp add: IndexFilter_call_def in_range_def)
  with r show "\<exists>r. parse_filter t = Inr r \<and> (\<forall>index. \<not> IndexFilter_call [r] index)" by blast
next
  assume a: "filter_tokens filters \<noteq> [] \<and> (\<forall>t\<in>set (filter_tokens filters). inverted_token t)"
  let ?ts = "filter_tokens filters"
  let ?fs = "map (\<lambda>t. projr (parse_filter t)) ?ts"
  from a have ok: "\<forall>t\<in>set ?ts. \<not> isl (parse_filter t)"
    using inverted_parse by fastforce
  then have init: "IndexFilter_init filters = Inr ?fs"
    unfolding IndexFilter_init_def using IndexFilter_append_ok [of ?ts "[]"] by simp
  from a have "\<forall>r\<in>set ?fs. stop r \<le> start r \<and> stop r \<noteq> - 1"
    using inverted_parse by fastforce
  then have "\<forall>index. \<not> IndexFilter_scan ?fs index"
    using empty_range_no_match by blast
  moreover from a have "?fs \<noteq> []" by simp
  ultimately have "\<forall>index. \<not> IndexFilter_call ?fs index"
    by (simp add: IndexFilter_call_def)
  with init \<open>?fs \<noteq> []\<close>
  show "\<exists>fs. IndexFilter_init filters = Inr fs \<and> fs \<noteq> [] \<and> (\<forall>index. \<not> IndexFilter_call fs index)"
    by blast
qed

theorem C10_inverted_bounds_witness:
  "inverted_token (lit ''5-2'') \<and>
   parse_filter (lit ''5-2'') = Inr (PyRange 5 2) \<and>
   filter_tokens (lit ''5-2, 3-3'') = [lit ''5-2'', lit ''3-3''] \<and>
   inverted_token (lit ''3-3'') \<and>
   IndexFilter_init (lit ''5-2, 3-3'') = Inr [PyRange 5 2, PyRange 3 3] \<and>
   \<not> IndexFilter_call [PyRange 5 2, PyRange 3 3] 3"
  using C10_inverted_bounds [of "lit ''5-2''" "lit ''5-2, 3-3''"]
  by (simp add: inverted_token_def filter_eval IndexFilter_call_def in_range_def)

text \<open>
  C7, as the code has it. Parsing a filter text fails, always with \<open>ValueError\<close>, exactly
  when some token has no hyphen and is not an integer, or has more than one hyphen, or
  has a hyphen and a non-empty part that is not an integer. When one of the three filter
  texts of a run fails to parse, \<open>main\<close> ends with that error and the world is as it was:
  nothing was sent and no reply was taken.
\<close>

theorem C7_parse_error:
  "(IndexFilter_init filters = Inl e \<longleftrightarrow>
      e = ValueError \<and>
      list_ex (\<lambda>t. if 45 \<in> set t
                   then length (filter (\<lambda>c. c = 45) t) > 1 \<or>
                        list_ex (\<lambda>p. p \<noteq> [] \<and> \<not> is_integer p) (py_split 45 t)
                   else \<not> is_integer t)
              (filter_tokens filters)) \<and>
   (isl (IndexFilter_init ms) \<or> isl (IndexFilter_init ts) \<or> isl (IndexFilter_init cs) \<longrightarrow>
      main urljoin rid ms ts cs bdir w = (Inl ValueError, w))"
proof (intro conjI impI)
  show "IndexFilter_init filters = Inl e \<longleftrightarrow>
      e = ValueError \<and>
      list_ex (\<lambda>t. if 45 \<in> set t
                   then length (filter (\<lambda>c. c = 45) t) > 1 \<or>
                        list_ex (\<lambda>p. p \<noteq> [] \<and> \<not> is_integer p) (py_split 45 t)
                   else \<not> is_integer t)
              (filter_tokens filters)"
    unfolding IndexFilter_init_def IndexFilter_append_error
    by (simp add: parse_filter_isl list_ex_iff)
next
  assume "isl (IndexFilter_init ms) \<or> isl (IndexFilter_init ts) \<or> isl (IndexFilter_init cs)"
  then show "main urljoin rid ms ts cs bdir w = (Inl ValueError, w)"
    by (simp add: main_def IceReport_init_error)
qed

theorem C7_parse_error_witness:
  "IndexFilter_init (lit ''1-2-3'') = Inl ValueError \<and>
   isl (IndexFilter_init (lit ''x'')) \<and>
   main (\<lambda>a b. a @ b) 1 (lit ''-'') (lit ''x'') (lit ''-'') (lit ''pyce'')
     (fresh_world [] [] [] []) = (Inl ValueError, fresh_world [] [] [] [])"
  using C7_parse_error [of "lit ''1-2-3''" ValueError "lit ''-''" "lit ''x''" "lit ''-''"
          "\<lambda>a b. a @ b" 1 "lit ''pyce''" "fresh_world [] [] [] []"]
  by (simp add: filter_eval is_integer_def)

text \<open>
  C7 as stated fails: every non-empty part of \<open>"1-2-3"\<close> is an integer, so the stated
  condition does not hold, yet parsing it raises \<open>ValueError\<close> (two values are unpacked
  from three).
\<close>

theorem C7_two_hyphens_counterexample:
  "\<not> spec_parse_fails (lit ''1-2-3'') \<and> IndexFilter_init (lit ''1-2-3'') = Inl ValueError"
  by (simp add: spec_parse_fails_def is_integer_def filter_eval)

section \<open>Lemmas about UTF-8 and base64\<close>

lemma utf8_char_bytes: "c < 1114112 \<Longrightarrow> b \<in> set (utf8_char c) \<Longrightarrow> b < 256"
  by (auto simp: utf8_char_def split: if_splits)

lemma radix64_2: "x * 64 + y = q \<Longrightarrow> q * 64 + z = c \<Longrightarrow> x * 4096 + y * 64 + z = (c::nat)"
  by auto

lemma radix64_3:
  "w * 64 + x = p \<Longrightarrow> p * 64 + y = q \<Longrightarrow> q * 64 + z = c \<Longrightarrow>
   w * 262144 + x * 4096 + y * 64 + z = (c::nat)"
  by auto

lemma div_4096: "(c::nat) div 4096 = c div 64 div 64"
  by (simp add: div_mult2_eq)

lemma div_262144: "(c::nat) div 262144 = c div 64 div 64 div 64"
  by (simp add: div_mult2_eq)

lemma bytes_decode_utf8_char:
  assumes "is_scalar c"
  shows "bytes_decode (utf8_char c @ bs) = map_sum id ((#) c) (bytes_decode bs)"
proof -
  consider "c < 128" | "128 \<le> c" "c < 2048" | "2048 \<le> c" "c < 65536" | "65536 \<le> c"
    by linarith
  then show ?thesis
  proof cases
    case 1
    then show ?thesis by (simp add: utf8_char_def)
  next
    case 2
    then have "(192 + c div 64 - 192) * 64 + (128 + c mod 64 - 128) = c" by simp
    moreover from 2 have "2 \<le> c div 64" "c div 64 < 32" by simp_all
    ultimately show ?thesis using 2 by (simp add: utf8_char_def is_cont_def)
  next
    case 3
    have e: "c div 4096 * 4096 + c div 64 mod 64 * 64 + c mod 64 = c"
      unfolding div_4096 by (rule radix64_2 [OF div_mult_mod_eq div_mult_mod_eq])
    from 3 have "c div 4096 < 16" by simp
    with 3 e assms show ?thesis
      by (simp add: utf8_char_def is_cont_def is_scalar_def Let_def)
  next
    case 4
    have e: "c div 262144 * 262144 + c div 4096 mod 64 * 4096 + c div 64 mod 64 * 64 +
        c mod 64 = c"
      unfolding div_4096 div_262144
      by (rule radix64_3 [OF div_mult_mod_eq div_mult_mod_eq div_mult_mod_eq])
    from assms have "c < 5 * 262144" by (simp add: is_scalar_def)
    then have "c div 262144 < 5" by (rule less_mult_imp_div_less)
    with 4 e assms show ?thesis
      by (simp add: utf8_char_def is_cont_def is_scalar_def Let_def)
  qed
qed

lemma str_encode_scalar:
  "\<forall>c\<in>set s. is_scalar c \<Longrightarrow> str_encode s = Inr (concat (map utf8_char s))"
  by (induction s) (auto simp: is_scalar_def)

lemma bytes_decode_encode:
  "\<forall>c\<in>set s. is_scalar c \<Longrightarrow> bytes_decode (concat (map utf8_char s)) = Inr s"
  by (induction s) (auto simp: bytes_decode_utf8_char)

lemma utf8_bytes: "\<forall>c\<in>set s. is_scalar c \<Longrightarrow> \<forall>b\<in>set (concat (map utf8_char s)). b < 256"
  by (auto simp: is_scalar_def dest: utf8_char_bytes)

lemma b64_value_char: "v < 64 \<Longrightarrow> b64_value (b64_char v) = Some v"
  by (auto simp: b64_value_def b64_char_def)

lemma b64_char_not_pad: "b64_char v \<noteq> 61"
  by (auto simp: b64_char_def)

lemma b64_char_std: "b64_char v < 128 \<and> b64_char v \<noteq> 45 \<and> b64_char v \<noteq> 95"
  by (auto simp: b64_char_def)

lemma sextet_1: "(a::nat) < 256 \<Longrightarrow> a div 4 < 64"
  by simp

lemma sextet_2: "(b::nat) < 256 \<Longrightarrow> a mod 4 * 16 + b div 16 < 64"
proof -
  assume "b < 256"
  then have "b div 16 < 16" by simp
  moreover have "a mod 4 < 4" by simp
  ultimately show ?thesis by linarith
qed

lemma sextet_3: "(c::nat) < 256 \<Longrightarrow> b mod 16 * 4 + c div 64 < 64"
proof -
  assume "c < 256"
  then have "c div 64 < 4" by simp
  moreover have "b mod 16 < 16" by simp
  ultimately show ?thesis by linarith
qed

lemma hi_lo_16: "(y::nat) < 16 \<Longrightarrow> (x * 16 + y) div 16 = x \<and> (x * 16 + y) mod 16 = y"
  by simp

lemma hi_lo_4: "(y::nat) < 4 \<Longrightarrow> (x * 4 + y) div 4 = x \<and> (x * 4 + y) mod 4 = y"
  by simp

lemma a2b_group:
  assumes "a < 256" "b < 256" "c < 256"
  shows "a2b_base64 0 l 0
           (b64_char (a div 4) # b64_char (a mod 4 * 16 + b div 16) #
            b64_char (b mod 16 * 4 + c div 64) # b64_char (c mod 64) # rest) =
         map_sum id (\<lambda>r. a # b # c # r) (a2b_base64 0 0 0 rest)"
proof -
  from assms have b16: "b div 16 < 16" and c64: "c div 64 < 4" by simp_all
  have o1: "a div 4 * 4 + (a mod 4 * 16 + b div 16) div 16 = a"
    using hi_lo_16 [OF b16, of "a mod 4"] by simp
  have l1: "(a mod 4 * 16 + b div 16) mod 16 = b div 16"
    using hi_lo_16 [OF b16, of "a mod 4"] by simp
  have o2: "b div 16 * 16 + (b mod 16 * 4 + c div 64) div 4 = b"
    using hi_lo_4 [OF c64, of "b mod 16"] by simp
  have l2: "(b mod 16 * 4 + c div 64) mod 4 = c div 64"
    using hi_lo_4 [OF c64, of "b mod 16"] by simp
  have o3: "c div 64 * 64 + c mod 64 = c" by (rule div_mult_mod_eq)
  have v4: "c mod 64 < 64" by simp
  show ?thesis
    by (simp only: a2b_base64.simps b64_char_not_pad b64_value_char sextet_1 sextet_2 sextet_3
        assms v4 o1 l1 o2 l2 o3 if_False if_True option.case simp_thms One_nat_def
        sum.map_comp id_comp comp_def)
      (cases "a2b_base64 0 0 0 rest"; simp)
qed

lemma a2b_pad_only: "a2b_base64 0 l p (replicate k 61) = Inr []"
  by (induction k) auto

lemma a2b_tail2:
  assumes "a < 256" "b < 256"
  shows "a2b_base64 0 l 0
           (b64_char (a div 4) # b64_char (a mod 4 * 16 + b div 16) #
            b64_char (b mod 16 * 4) # 61 # rest) = Inr [a, b]"
proof -
  from assms have b16: "b div 16 < 16" by simp
  have o1: "a div 4 * 4 + (a mod 4 * 16 + b div 16) div 16 = a"
    using hi_lo_16 [OF b16, of "a mod 4"] by simp
  have l1: "(a mod 4 * 16 + b div 16) mod 16 = b div 16"
    using hi_lo_16 [OF b16, of "a mod 4"] by simp
  have o2: "b div 16 * 16 + b mod 16 * 4 div 4 = b" by simp
  have v3: "b mod 16 * 4 < 64"
  proof -
    have "b mod 16 < 16" by simp
    then show ?thesis by linarith
  qed
  show ?thesis
    by (simp only: a2b_base64.simps b64_char_not_pad b64_value_char sextet_1 sextet_2 v3
        assms o1 l1 o2 if_False if_True option.case simp_thms One_nat_def)
      (simp add: id_def)
qed

lemma a2b_tail1:
  assumes "a < 256"
  shows "a2b_base64 0 l 0
           (b64_char (a div 4) # b64_char (a mod 4 * 16) # 61 # 61 # rest) = Inr [a]"
proof -
  have o1: "a div 4 * 4 + a mod 4 * 16 div 16 = a" by simp
  have v2: "a mod 4 * 16 < 64"
  proof -
    have "a mod 4 < 4" by simp
    then show ?thesis by linarith
  qed
  show ?thesis
    by (simp only: a2b_base64.simps b64_char_not_pad b64_value_char sextet_1 v2
        assms o1 if_False if_True option.case simp_thms One_nat_def)
      (simp add: id_def)
qed

lemma a2b_body:
  "\<forall>b\<in>set bs. b < 256 \<Longrightarrow> b64_pad bs \<le> k \<Longrightarrow>
   a2b_base64 0 l 0 (b64_body bs @ replicate k 61) = Inr bs"
proof (induction bs arbitrary: l rule: b64_body.induct)
  case (1 a b c r)
  then have "a2b_base64 0 0 0 (b64_body r @ replicate k 61) = Inr r" by simp
  moreover from 1 have "a < 256" "b < 256" "c < 256" by simp_all
  ultimately show ?case by (simp add: a2b_group del: a2b_base64.simps)
next
  case (2 a b)
  then obtain k' where "k = Suc k'" by (cases k) auto
  with 2 show ?case by (simp add: a2b_tail2 del: a2b_base64.simps)
next
  case (3 a)
  then obtain k' where "k = Suc (Suc k')" by (cases k; cases "k - 1") auto
  with 3 show ?case by (simp add: a2b_tail1 del: a2b_base64.simps)
next
  case 4
  then show ?case by (simp add: a2b_pad_only)
qed

lemma b2a_body: "b2a_base64 bs = b64_body bs @ replicate (b64_pad bs) 61"
  by (induction bs rule: b64_body.induct) (simp_all add: numeral_2_eq_2)

lemma b64_body_chars:
  "c \<in> set (b64_body bs) \<Longrightarrow> c \<noteq> 61 \<and> c < 128 \<and> c \<noteq> 45 \<and> c \<noteq> 95"
  by (induction bs rule: b64_body.induct) (use b64_char_not_pad b64_char_std in auto)

lemma dropWhile_pad: "dropWhile (\<lambda>c. c = 61) (replicate k 61 @ ys) = dropWhile (\<lambda>c. c = 61) ys"
  by (induction k) auto

lemma rstrip_pad_append: "61 \<notin> set xs \<Longrightarrow> rstrip_pad (xs @ replicate k 61) = xs"
proof -
  assume a: "61 \<notin> set xs"
  have "dropWhile (\<lambda>c. c = 61) (rev xs) = rev xs"
  proof (cases "rev xs")
    case Nil
    then show ?thesis by simp
  next
    case (Cons y ys)
    then have "y \<in> set (rev xs)" by simp
    with a have "y \<noteq> 61" by auto
    with Cons show ?thesis by simp
  qed
  then show ?thesis
    by (simp add: rstrip_pad_def dropWhile_pad)
qed

lemma length_b64_body: "length (b64_body bs) mod 4 = (if b64_pad bs = 0 then 0 else 4 - b64_pad bs)"
  by (induction bs rule: b64_body.induct) simp_all

lemma neg_mod8_a: "(i::int) mod 4 = 2 \<Longrightarrow> 2 \<le> (- i) mod 8"
  by presburger

lemma neg_mod8_b: "(i::int) mod 4 = 3 \<Longrightarrow> 1 \<le> (- i) mod 8"
  by presburger

lemma pad8_enough: "b64_pad bs \<le> nat (- int (length (b64_body bs)) mod 8)"
proof -
  let ?n = "length (b64_body bs)"
  have p: "b64_pad bs = 0 \<or> b64_pad bs = 1 \<or> b64_pad bs = 2"
    by (induction bs rule: b64_pad.induct) auto
  have m: "?n mod 4 = (if b64_pad bs = 0 then 0 else 4 - b64_pad bs)"
    by (rule length_b64_body)
  from p consider "b64_pad bs = 0" | "b64_pad bs = 1" | "b64_pad bs = 2" by auto
  then show ?thesis
  proof cases
    case 1
    then show ?thesis by simp
  next
    case 2
    with m have "?n mod 4 = 3" by simp
    then have "int ?n mod 4 = 3" by (metis of_nat_mod of_nat_numeral)
    then have "1 \<le> (- int ?n) mod 8" by (rule neg_mod8_b)
    with 2 show ?thesis by simp
  next
    case 3
    with m have "?n mod 4 = 2" by simp
    then have "int ?n mod 4 = 2" by (metis of_nat_mod of_nat_numeral)
    then have "2 \<le> (- int ?n) mod 8" by (rule neg_mod8_a)
    with 3 show ?thesis by simp
  qed
qed

lemma ascii_encode: "\<forall>c\<in>set xs. c < 128 \<Longrightarrow> str_encode xs = Inr xs"
  by (induction xs) (auto simp: is_surrogate_def utf8_char_def)

lemma ascii_decode: "\<forall>c\<in>set xs. c < 128 \<Longrightarrow> bytes_decode xs = Inr xs"
  by (induction xs) auto

lemma urlsafe_encode_body:
  "urlsafe_b64encode bs =
     map (\<lambda>c. if c = 43 then 45 else if c = 47 then 95 else c) (b64_body bs) @
     replicate (b64_pad bs) 61"
  by (simp add: urlsafe_b64encode_def b2a_body)

lemma urlsafe_decode_body:
  "urlsafe_b64decode
     (map (\<lambda>c. if c = 43 then 45 else if c = 47 then 95 else c) (b64_body bs) @ replicate k 61) =
   a2b_base64 0 0 0 (b64_body bs @ replicate k 61)"
proof -
  have "map (\<lambda>c. if c = 45 then 43 else if c = 95 then 47 else c)
          (map (\<lambda>c. if c = 43 then 45 else if c = 47 then 95 else c) (b64_body bs)) =
        b64_body bs"
    using b64_body_chars [of _ bs] by (auto simp: map_idI)
  then show ?thesis by (simp add: urlsafe_b64decode_def)
qed

lemma replicate_2: "replicate 2 x = [x, x]"
  by (simp add: numeral_2_eq_2)

lemma encode_data_example:
  "encode_data [97, 233, 8364, 128512] = Inr (lit ''YcOp4oKs8J-YgA'')"
  by (simp add: encode_data_def is_surrogate_def utf8_char_def
      urlsafe_b64encode_def b64_char_def rstrip_pad_def is_cont_def)

lemma decode_data_example:
  "decode_data (lit ''YcOp4oKs8J-YgA'') = Inr [97, 233, 8364, 128512]"
  by (simp add: decode_data_def is_surrogate_def utf8_char_def
      urlsafe_b64decode_def b64_value_def is_cont_def replicate_2)

section \<open>The claim about the file names\<close>

text \<open>
  C9, as the code has it. For every \<open>str\<close> of Unicode scalar values (no surrogate code
  point), \<open>encode_data\<close> returns a text without \<open>=\<close> (61), and \<open>decode_data\<close> of that
  text returns the \<open>str\<close>.
\<close>

theorem C9_roundtrip:
  assumes "\<forall>c\<in>set s. is_scalar c"
  shows "\<exists>e. encode_data s = Inr e \<and> 61 \<notin> set e \<and> decode_data e = Inr s"
proof -
  let ?bs = "concat (map utf8_char s)"
  let ?e = "map (\<lambda>c. if c = 43 then 45 else if c = 47 then 95 else c) (b64_body ?bs)"
  have enc: "str_encode s = Inr ?bs" using assms by (rule str_encode_scalar)
  have nopad: "61 \<notin> set ?e" using b64_body_chars [of _ ?bs] by auto
  have ascii: "\<forall>c\<in>set ?e. c < 128" using b64_body_chars [of _ ?bs] by auto
  have strip: "rstrip_pad (urlsafe_b64encode ?bs) = ?e"
    unfolding urlsafe_encode_body using nopad by (rule rstrip_pad_append)
  have e: "encode_data s = Inr ?e"
    by (simp add: encode_data_def enc strip ascii_decode [OF ascii])
  have bytes: "\<forall>b\<in>set ?bs. b < 256" using assms by (rule utf8_bytes)
  have "b64_pad ?bs \<le> nat (- int (length ?e) mod 8)"
    using pad8_enough [of ?bs] by simp
  then have "urlsafe_b64decode (?e @ replicate (nat (- int (length ?e) mod 8)) 61) = Inr ?bs"
    unfolding urlsafe_decode_body using bytes by (simp add: a2b_body)
  then have d: "decode_data ?e = Inr s"
    using assms by (simp add: decode_data_def ascii_encode [OF ascii] bytes_decode_encode)
  from e nopad d show ?thesis by blast
qed

theorem C9_roundtrip_witness:
  "is_scalar 97 \<and> is_scalar 233 \<and> is_scalar 8364 \<and> is_scalar 128512 \<and>
   encode_data [97, 233, 8364, 128512] = Inr (lit ''YcOp4oKs8J-YgA'') \<and>
   61 \<notin> set (lit ''YcOp4oKs8J-YgA'') \<and>
   decode_data (lit ''YcOp4oKs8J-YgA'') = Inr [97, 233, 8364, 128512]"
  using C9_roundtrip [of "[97, 233, 8364, 128512]"]
  by (simp add: is_scalar_def is_surrogate_def encode_data_example decode_data_example)

text \<open>
  C9 as stated, for every string, fails: a \<open>str\<close> may hold a lone surrogate, and
  \<open>encode_data\<close> raises \<open>UnicodeEncodeError\<close> on it.
\<close>

theorem C9_surrogate_counterexample:
  "encode_data [55296] = Inl UnicodeEncodeError"
  by (simp add: encode_data_def is_surrogate_def)


section \<open>Lemmas about the request loop\<close>

declare request.simps [simp del]

lemma request_429:
  assumes "replies w = Reply r # rs" "status_code r = 429" "retry_after r = Some h"
    "py_int h = Inr n" "0 \<le> n"
  shows "request self m u d w =
     request self m u d
       (w\<lparr>replies := rs,
          events := events w @ [Request m u d (cookie w), Print (HttpErrorMsg 429),
                                Print (SleepMsg n), Sleep n]\<rparr>)"
  using assms by (subst request.simps) (simp add: raise_for_status_def emit_def)

lemma request_409:
  assumes "replies w = Reply r # rs" "status_code r = 409" "stdin w = line # lines"
  shows "request self m u d w =
     request self m u d
       (w\<lparr>replies := rs, stdin := lines, cookie := Some (py_strip line),
          events := events w @ [Request m u d (cookie w), Print (HttpErrorMsg 409),
                                Prompt (cookie_url self)]\<rparr>)"
  using assms
  by (subst request.simps)
     (auto simp add: raise_for_status_def emit_def
           intro!: arg_cong [where f = "request self m u d"] world.equality)






lemma request_frame:
  "replies w = rs \<Longrightarrow>
   cache (snd (request self m u d w)) = cache w \<and>
   files (snd (request self m u d w)) = files w \<and>
   faults (snd (request self m u d w)) = faults w \<and>
   magic_dirs (snd (request self m u d w)) = magic_dirs w \<and>
   (\<exists>rest. events (snd (request self m u d w)) =
            events w @ Request m u d (cookie w) # rest)"
proof (induction rs arbitrary: w)
  case Nil
  then show ?case by (simp add: request.simps [of self m u d w] emit_def)
next
  case (Cons x rs)
  show ?case
  proof (cases x)
    case TransportError
    with Cons.prems show ?thesis by (simp add: request.simps [of self m u d w] emit_def)
  next
    case (Reply r)
    note ih = Cons.IH
    consider (ok) "raise_for_status r = Inr ()"
      | (c409) "raise_for_status r \<noteq> Inr ()" "status_code r = 409"
      | (c429) "raise_for_status r \<noteq> Inr ()" "status_code r = 429"
      | (other) "raise_for_status r \<noteq> Inr ()" "status_code r \<noteq> 409" "status_code r \<noteq> 429"
      by blast
    then show ?thesis
    proof cases
      case ok
      with Cons.prems Reply show ?thesis
        by (simp add: request.simps [of self m u d w] emit_def)
    next
      case c409
      then have err: "raise_for_status r = Inl (HTTPError 409)"
        by (auto simp: raise_for_status_def split: if_splits)
      show ?thesis
      proof (cases "stdin w")
        case Nil
        with Cons.prems Reply err c409 show ?thesis
          by (simp add: request.simps [of self m u d w] emit_def)
      next
        case (Cons line lines)
        let ?w = "w\<lparr>replies := rs, stdin := lines, cookie := Some (py_strip line),
          events := events w @ [Request m u d (cookie w), Print (HttpErrorMsg 409),
                                Prompt (cookie_url self)]\<rparr>"
        have step: "request self m u d w = request self m u d ?w"
          using Cons.prems Reply c409 Cons by (intro request_409) auto
        have "replies ?w = rs" by simp
        from ih [OF this] show ?thesis unfolding step by auto
      qed
    next
      case c429
      then have err: "raise_for_status r = Inl (HTTPError 429)"
        by (auto simp: raise_for_status_def split: if_splits)
      show ?thesis
      proof (cases "retry_after r")
        case None
        with Cons.prems Reply err c429 show ?thesis
          by (simp add: request.simps [of self m u d w] emit_def)
      next
        case (Some h)
        show ?thesis
        proof (cases "py_int h")
          case (Inl e)
          with Cons.prems Reply err c429 Some show ?thesis
            by (simp add: request.simps [of self m u d w] emit_def)
        next
          case (Inr n)
          show ?thesis
          proof (cases "n < 0")
            case True
            with Cons.prems Reply err c429 Some Inr show ?thesis
              by (simp add: request.simps [of self m u d w] emit_def)
          next
            case False
            let ?w = "w\<lparr>replies := rs,
              events := events w @ [Request m u d (cookie w), Print (HttpErrorMsg 429),
                                Print (SleepMsg n), Sleep n]\<rparr>"
            have step: "request self m u d w = request self m u d ?w"
              using Cons.prems Reply c429 Some Inr False by (intro request_429) auto
            have "replies ?w = rs" by simp
            from ih [OF this] show ?thesis unfolding step by auto
          qed
        qed
      qed
    next
      case other
      then obtain e where err: "raise_for_status r = Inl e"
        by (cases "raise_for_status r") auto
      with Cons.prems Reply other show ?thesis
        by (simp add: request.simps [of self m u d w] emit_def)
    qed
  qed
qed

lemma get_results_body_frame:
  "cache (snd (get_results_body self market tp w)) = cache w \<and>
   files (snd (get_results_body self market tp w)) = files w \<and>
   faults (snd (get_results_body self market tp w)) = faults w \<and>
   magic_dirs (snd (get_results_body self market tp w)) = magic_dirs w \<and>
   (\<exists>rest. events (snd (get_results_body self market tp w)) =
      events w @ Request POST (results_url self)
                   [(MARKET_KEY, market), (TIME_PERIOD_KEY, tp)] (cookie w) # rest)"
  using request_frame [of w "replies w" self POST "results_url self"
      "[(MARKET_KEY, market), (TIME_PERIOD_KEY, tp)]"]
  by (auto simp: get_results_body_def split: prod.splits sum.splits payload.splits)


section \<open>The claims about the requests\<close>




text \<open>
  C5, as the code has it. \<open>get_results\<close> has one slot, keyed by the market and the time
  period. A call with the key of the slot returns the stored page and leaves the world
  as it is: nothing is sent. A call with another key (or with the slot empty) sends a
  request for its own market and time period; if the body returns a page, the slot
  holds this key and page afterwards, the old entry is gone, and the same call again
  returns the page without sending anything; if it raises, the slot is as before.
\<close>

theorem C5_one_slot_cache:
  "(cache w = Some ((market, time_period), page) \<longrightarrow>
      get_results self market time_period w = (Inr page, w)) \<and>
   ((\<forall>p. cache w \<noteq> Some ((market, time_period), p)) \<and>
    get_results_body self market time_period w = (Inr page, w1) \<longrightarrow>
      get_results self market time_period w =
        (Inr page, w1\<lparr>cache := Some ((market, time_period), page)\<rparr>) \<and>
      get_results self market time_period
          (w1\<lparr>cache := Some ((market, time_period), page)\<rparr>) =
        (Inr page, w1\<lparr>cache := Some ((market, time_period), page)\<rparr>)) \<and>
   ((\<forall>p. cache w \<noteq> Some ((market, time_period), p)) \<longrightarrow>
      (\<exists>rest. events (snd (get_results self market time_period w)) =
         events w @ Request POST (results_url self)
                      [(MARKET_KEY, market), (TIME_PERIOD_KEY, time_period)] (cookie w) # rest)) \<and>
   ((\<forall>p. cache w \<noteq> Some ((market, time_period), p)) \<and>
    get_results self market time_period w = (Inl e, w1) \<longrightarrow>
      cache w1 = cache w)"
proof (intro conjI impI)
  assume "cache w = Some ((market, time_period), page)"
  then show "get_results self market time_period w = (Inr page, w)"
    by (simp add: get_results_def cache_hit_def)
next
  assume a: "(\<forall>p. cache w \<noteq> Some ((market, time_period), p)) \<and>
    get_results_body self market time_period w = (Inr page, w1)"
  then have miss: "cache_hit w market time_period = None"
    by (auto simp: cache_hit_def split: option.splits)
  with a show "get_results self market time_period w =
        (Inr page, w1\<lparr>cache := Some ((market, time_period), page)\<rparr>)"
    by (simp add: get_results_def)
next
  show "get_results self market time_period
          (w1\<lparr>cache := Some ((market, time_period), page)\<rparr>) =
        (Inr page, w1\<lparr>cache := Some ((market, time_period), page)\<rparr>)"
    by (simp add: get_results_def cache_hit_def)
next
  assume a: "\<forall>p. cache w \<noteq> Some ((market, time_period), p)"
  then have miss: "cache_hit w market time_period = None"
    by (auto simp: cache_hit_def split: option.splits)
  obtain res w2 where b: "get_results_body self market time_period w = (res, w2)"
    by (cases "get_results_body self market time_period w")
  from get_results_body_frame [of self market time_period w] b
  obtain rest where "events w2 = events w @ Request POST (results_url self)
      [(MARKET_KEY, market), (TIME_PERIOD_KEY, time_period)] (cookie w) # rest"
    by auto
  with miss b show "\<exists>rest. events (snd (get_results self market time_period w)) =
         events w @ Request POST (results_url self)
                      [(MARKET_KEY, market), (TIME_PERIOD_KEY, time_period)] (cookie w) # rest"
    by (cases res) (simp_all add: get_results_def)
next
  assume a: "(\<forall>p. cache w \<noteq> Some ((market, time_period), p)) \<and>
    get_results self market time_period w = (Inl e, w1)"
  then have miss: "cache_hit w market time_period = None"
    by (auto simp: cache_hit_def split: option.splits)
  obtain res w2 where b: "get_results_body self market time_period w = (res, w2)"
    by (cases "get_results_body self market time_period w")
  from get_results_body_frame [of self market time_period w] b
  have "cache w2 = cache w" by simp
  with a miss b show "cache w1 = cache w"
    by (cases res) (auto simp: get_results_def)
qed

theorem C5_one_slot_cache_witness:
  "get_results example_report (lit ''A'') (lit ''P'')
     ((fresh_world [] [] [] [])\<lparr>cache := Some ((lit ''A'', lit ''P''), (lit ''Jan'', []))\<rparr>) =
   (Inr (lit ''Jan'', []),
    (fresh_world [] [] [] [])\<lparr>cache := Some ((lit ''A'', lit ''P''), (lit ''Jan'', []))\<rparr>) \<and>
   (\<exists>rest. events (snd (get_results example_report (lit ''B'') (lit ''P'')
       ((fresh_world [] [] [] [])\<lparr>cache := Some ((lit ''A'', lit ''P''), (lit ''Jan'', []))\<rparr>))) =
     Request POST (results_url example_report)
        [(MARKET_KEY, lit ''B''), (TIME_PERIOD_KEY, lit ''P'')] None # rest)"
  using C5_one_slot_cache [of
      "(fresh_world [] [] [] [])\<lparr>cache := Some ((lit ''A'', lit ''P''), (lit ''Jan'', []))\<rparr>"
      "lit ''A''" "lit ''P''" "(lit ''Jan'', [])" example_report]
    C5_one_slot_cache [of
      "(fresh_world [] [] [] [])\<lparr>cache := Some ((lit ''A'', lit ''P''), (lit ''Jan'', []))\<rparr>"
      "lit ''B''" "lit ''P''" _ example_report]
  by (simp add: fresh_world_def)

text \<open>
  C5 as stated fails for a call that raises: the call for another market sends a request,
  gets status 500 and raises, and the entry of the slot is still the old one.
\<close>

theorem C5_failed_call_counterexample:
  "get_results example_report (lit ''B'') (lit ''P'')
     ((fresh_world [Reply (Response 500 None NotJson)] [] [] [])
        \<lparr>cache := Some ((lit ''A'', lit ''P''), (lit ''Jan'', []))\<rparr>) =
   (Inl (HTTPError 500),
    (fresh_world [] [] [] [])
      \<lparr>cache := Some ((lit ''A'', lit ''P''), (lit ''Jan'', [])),
        events := [Request POST (results_url example_report)
                     [(MARKET_KEY, lit ''B''), (TIME_PERIOD_KEY, lit ''P'')] None,
                   Print (HttpErrorMsg 500)]\<rparr>)"
  by (simp add: get_results_def cache_hit_def get_results_body_def request.simps
      fresh_world_def raise_for_status_def emit_def)

section \<open>Lemmas about the loop over the markets\<close>

declare nat_digits.simps [simp del]

lemma encode_data_A: "encode_data [65] = Inr (lit ''QQ'')"
  by (simp add: encode_data_def is_surrogate_def utf8_char_def
      urlsafe_b64encode_def b64_char_def rstrip_pad_def is_cont_def)

lemmas dump_eval = dump_def get_criteria_def request.simps raise_for_status_def emit_def
  IndexFilter_filter_def IndexFilter_call_def in_range_def sys_maxsize_def
  dump_period_def dump_market_def fetch_label_def save_fragment_def get_results_def cache_hit_def get_results_body_def
  makedirs_def isfile_def isdir_def path_dirname_def py_str_int_def
  consolidate_def glob_csv_def has_magic_def glob1_csv_def listdir_def rmtree_def below_def
  file_rows_def write_fragment_def os_remove_def
  example_report_def fresh_world_def MARKET_KEY_def TIME_PERIOD_KEY_def encode_data_A
  Let_def suffix_to_prefix nat_digits.simps


lemma get_results_frame:
  "files (snd (get_results self market tp w)) = files w \<and>
   faults (snd (get_results self market tp w)) = faults w \<and>
   magic_dirs (snd (get_results self market tp w)) = magic_dirs w \<and>
   prefix (events w) (events (snd (get_results self market tp w)))"
proof (cases "cache_hit w market tp")
  case (Some page)
  then show ?thesis by (simp add: get_results_def)
next
  case None
  obtain res w2 where b: "get_results_body self market tp w = (res, w2)"
    by (cases "get_results_body self market tp w")
  from get_results_body_frame [of self market tp w] b
  have "files w2 = files w" "faults w2 = faults w" "magic_dirs w2 = magic_dirs w"
    "prefix (events w) (events w2)"
    by (auto simp: prefix_def)
  with None b show ?thesis by (cases res) (simp_all add: get_results_def)
qed

lemma get_results_miss_events:
  assumes "\<forall>p. cache w \<noteq> Some ((market, tp), p)"
  shows "prefix (events w @ [Request POST (results_url self)
                   [(MARKET_KEY, market), (TIME_PERIOD_KEY, tp)] (cookie w)])
           (events (snd (get_results self market tp w)))"
proof -
  from assms have miss: "cache_hit w market tp = None"
    by (auto simp: cache_hit_def split: option.splits)
  obtain res w2 where b: "get_results_body self market tp w = (res, w2)"
    by (cases "get_results_body self market tp w")
  from get_results_body_frame [of self market tp w] b
  have "prefix (events w @ [Request POST (results_url self)
                   [(MARKET_KEY, market), (TIME_PERIOD_KEY, tp)] (cookie w)]) (events w2)"
    by (auto simp: prefix_def)
  with miss b show ?thesis by (cases res) (simp_all add: get_results_def)
qed

lemma write_fragment_events: "events (snd (write_fragment path rows w)) = events w"
  by (simp add: write_fragment_def Let_def split: fault.splits list.splits)

lemma fetch_label_set: "fst st \<noteq> [] \<Longrightarrow> fetch_label self tp market st w = (Inr st, w)"
  by (simp add: fetch_label_def)

lemma fetch_label_events:
  "prefix (events w) (events (snd (fetch_label self tp market st w)))"
proof (cases "fst st = []")
  case False
  then show ?thesis by (simp add: fetch_label_def)
next
  case True
  obtain res w1 where g: "get_results self market tp w = (res, w1)"
    by (cases "get_results self market tp w")
  with get_results_frame [of self market tp w] have p: "prefix (events w) (events w1)" by simp
  show ?thesis
  proof (cases res)
    case (Inl e)
    with True g p show ?thesis by (simp add: fetch_label_def)
  next
    case (Inr page)
    with True g p show ?thesis
      by (cases "makedirs (files w1) (path_join (base_dir self)
                   [fst page, 126 # py_str_int (report_id self)])")
         (simp_all add: fetch_label_def Let_def)
  qed
qed

lemma fetch_label_miss:
  assumes "fst st = []" "\<forall>p. cache w \<noteq> Some ((market, tp), p)"
  shows "prefix (events w @ [Request POST (results_url self)
                   [(MARKET_KEY, market), (TIME_PERIOD_KEY, tp)] (cookie w)])
           (events (snd (fetch_label self tp market st w)))"
proof -
  obtain res w1 where g: "get_results self market tp w = (res, w1)"
    by (cases "get_results self market tp w")
  with get_results_miss_events [OF assms(2), of self]
  have p: "prefix (events w @ [Request POST (results_url self)
                   [(MARKET_KEY, market), (TIME_PERIOD_KEY, tp)] (cookie w)]) (events w1)"
    by simp
  show ?thesis
  proof (cases res)
    case (Inl e)
    with assms g p show ?thesis by (simp add: fetch_label_def)
  next
    case (Inr page)
    with assms g p show ?thesis
      by (cases "makedirs (files w1) (path_join (base_dir self)
                   [fst page, 126 # py_str_int (report_id self)])")
         (simp_all add: fetch_label_def Let_def)
  qed
qed

lemma save_fragment_events:
  "prefix (events w) (events (snd (save_fragment self tp market path rows w)))"
proof -
  obtain res w3 where wf: "write_fragment path
      (map (IndexFilter_filter (column_filter self)) rows) w = (res, w3)"
    by (cases "write_fragment path (map (IndexFilter_filter (column_filter self)) rows) w")
  with write_fragment_events [of path "map (IndexFilter_filter (column_filter self)) rows" w]
  have e: "events w3 = events w" by simp
  show ?thesis
  proof (cases res)
    case (Inr u)
    with wf e show ?thesis by (simp add: save_fragment_def emit_def)
  next
    case (Inl x)
    with wf e show ?thesis
      by (cases "os_remove (files (emit (Print (WriteErrorMsg x)) w3)) path")
         (simp_all add: save_fragment_def emit_def Let_def)
  qed
qed

lemma dump_market_after_label:
  assumes "fetch_label self tp market st w = (Inr (date, temp_dir), w1)"
  shows "prefix (events w1) (events (snd (dump_market self tp market st w)))"
proof (cases "encode_data market")
  case (Inl e)
  with assms show ?thesis by (simp add: dump_market_def)
next
  case (Inr name)
  let ?path = "path_join temp_dir [name @ lit ''.csv'']"
  show ?thesis
  proof (cases "isfile (files w1) ?path")
    case True
    with assms Inr show ?thesis by (simp add: dump_market_def emit_def)
  next
    case False
    obtain res w2 where g: "get_results self market tp w1 = (res, w2)"
      by (cases "get_results self market tp w1")
    with get_results_frame [of self market tp w1] have p: "prefix (events w1) (events w2)"
      by simp
    show ?thesis
    proof (cases res)
      case (Inl e)
      with assms Inr False g p show ?thesis by (simp add: dump_market_def)
    next
      case pg: (Inr page)
      obtain subheader rows where page: "page = (subheader, rows)" by (cases page)
      show ?thesis
      proof (cases "date = subheader")
        case ne: False
        from p have "prefix (events w1) (events w2 @ [Print (MismatchMsg market tp subheader)])"
          by (rule prefix_order.trans) simp
        with assms Inr False g pg page ne show ?thesis
          by (simp add: dump_market_def emit_def)
      next
        case eq: True
        obtain r3 w3 where sf: "save_fragment self tp market ?path rows w2 = (r3, w3)"
          by (cases "save_fragment self tp market ?path rows w2")
        with save_fragment_events [of w2 self tp market ?path rows]
        have "prefix (events w2) (events w3)" by simp
        with p have "prefix (events w1) (events w3)" by (rule prefix_order.trans)
        with assms Inr False g pg page eq sf show ?thesis
          by (cases r3) (simp_all add: dump_market_def)
      qed
    qed
  qed
qed

lemma dump_market_events:
  "prefix (events w) (events (snd (dump_market self tp market st w)))"
proof -
  obtain res w1 where f: "fetch_label self tp market st w = (res, w1)"
    by (cases "fetch_label self tp market st w")
  with fetch_label_events [of w self tp market st] have p: "prefix (events w) (events w1)"
    by simp
  show ?thesis
  proof (cases res)
    case (Inl e)
    with f p show ?thesis by (simp add: dump_market_def)
  next
    case (Inr s)
    obtain date temp_dir where "s = (date, temp_dir)" by (cases s)
    with f Inr have "fetch_label self tp market st w = (Inr (date, temp_dir), w1)" by simp
    from dump_market_after_label [OF this] p show ?thesis
      by (rule prefix_order.trans [rotated])
  qed
qed

lemma dump_market_first_fetch:
  assumes "fst st = []" "\<forall>p. cache w \<noteq> Some ((market, tp), p)"
  shows "prefix (events w @ [Request POST (results_url self)
                   [(MARKET_KEY, market), (TIME_PERIOD_KEY, tp)] (cookie w)])
           (events (snd (dump_market self tp market st w)))"
proof -
  obtain res w1 where f: "fetch_label self tp market st w = (res, w1)"
    by (cases "fetch_label self tp market st w")
  with fetch_label_miss [OF assms, of self]
  have p: "prefix (events w @ [Request POST (results_url self)
                   [(MARKET_KEY, market), (TIME_PERIOD_KEY, tp)] (cookie w)]) (events w1)"
    by simp
  show ?thesis
  proof (cases res)
    case (Inl e)
    with f p show ?thesis by (simp add: dump_market_def)
  next
    case (Inr s)
    obtain date temp_dir where "s = (date, temp_dir)" by (cases s)
    with f Inr have "fetch_label self tp market st w = (Inr (date, temp_dir), w1)" by simp
    from dump_market_after_label [OF this] p show ?thesis
      by (rule prefix_order.trans [rotated])
  qed
qed

lemma save_fragment_write_fault:
  assumes "faults w = WriteFault k e # fts" "e \<noteq> KeyboardInterrupt" "\<not> isdir (files w) path"
  shows "\<exists>w'. save_fragment self tp market path rows w = (Inl e, w') \<and>
     map_of (files w') path = None \<and>
     events w' = events w @ [Print (WriteErrorMsg e)]"
  using assms
  by (simp add: save_fragment_def write_fragment_def emit_def os_remove_def Let_def
      update_conv' delete_conv')

lemma save_fragment_ok:
  assumes "faults w = [] \<or> hd (faults w) = NoFault" "\<not> isdir (files w) path"
  shows "save_fragment self tp market path rows w =
     (Inr (), w\<lparr>faults := tl (faults w),
               files := AList.update path
                  (File (map (IndexFilter_filter (column_filter self)) rows)) (files w),
               events := events w @ [Print (WroteMsg market tp path)]\<rparr>)"
  using assms
  by (cases "faults w")
     (auto simp: save_fragment_def write_fragment_def emit_def Let_def)

lemma dump_markets_abort:
  "dump_market self tp market st w = (Inl e, w1) \<Longrightarrow>
   dump_markets self tp (market # markets) st w = (Inl e, w1)"
  by simp


section \<open>The claims about the loop over the markets\<close>

text \<open>
  C6, as the code has it. In the body of the loop for one market: when the label of the
  period is already known and the fragment file of the market exists, the market is
  skipped; the world changes by the skip message alone, so nothing is sent. When the
  label is not yet known (the first market of the period) and the page of the market is
  not in the cache, the page is requested first, before the fragment file is looked at.
  In every case, once the label is there and the fragment file exists, all that follows
  is the skip message.
\<close>

theorem C6_skip_existing:
  "(fst st \<noteq> [] \<and> encode_data market = Inr name \<and>
    isfile (files w) (path_join (snd st) [name @ lit ''.csv'']) \<longrightarrow>
      dump_market self tp market st w = (Inr st, emit (Print (SkipMsg market tp)) w)) \<and>
   (fst st = [] \<and> (\<forall>p. cache w \<noteq> Some ((market, tp), p)) \<longrightarrow>
      prefix (events w @ [Request POST (results_url self)
                [(MARKET_KEY, market), (TIME_PERIOD_KEY, tp)] (cookie w)])
        (events (snd (dump_market self tp market st w)))) \<and>
   (fetch_label self tp market st w = (Inr (date, temp_dir), w1) \<and>
    encode_data market = Inr name \<and>
    isfile (files w1) (path_join temp_dir [name @ lit ''.csv'']) \<longrightarrow>
      dump_market self tp market st w =
        (Inr (date, temp_dir), emit (Print (SkipMsg market tp)) w1))"
proof (intro conjI impI)
  assume a: "fst st \<noteq> [] \<and> encode_data market = Inr name \<and>
    isfile (files w) (path_join (snd st) [name @ lit ''.csv''])"
  obtain date0 dir0 where st: "st = (date0, dir0)" by (cases st)
  with a have "fetch_label self tp market st w = (Inr (date0, dir0), w)"
    by (simp add: fetch_label_set)
  with a st show "dump_market self tp market st w = (Inr st, emit (Print (SkipMsg market tp)) w)"
    by (simp add: dump_market_def)
next
  assume "fst st = [] \<and> (\<forall>p. cache w \<noteq> Some ((market, tp), p))"
  then show "prefix (events w @ [Request POST (results_url self)
                [(MARKET_KEY, market), (TIME_PERIOD_KEY, tp)] (cookie w)])
        (events (snd (dump_market self tp market st w)))"
    using dump_market_first_fetch by blast
next
  assume "fetch_label self tp market st w = (Inr (date, temp_dir), w1) \<and>
    encode_data market = Inr name \<and>
    isfile (files w1) (path_join temp_dir [name @ lit ''.csv''])"
  then show "dump_market self tp market st w =
        (Inr (date, temp_dir), emit (Print (SkipMsg market tp)) w1)"
    by (simp add: dump_market_def)
qed

theorem C6_skip_existing_witness:
  "dump_market example_report (lit ''P'') (lit ''A'') (lit ''Jan'', lit ''pyce/Jan/~1'')
     (fresh_world [] [] [] [(lit ''pyce/Jan/~1/QQ.csv'', File [])]) =
   (Inr (lit ''Jan'', lit ''pyce/Jan/~1''),
    emit (Print (SkipMsg (lit ''A'') (lit ''P'')))
      (fresh_world [] [] [] [(lit ''pyce/Jan/~1/QQ.csv'', File [])])) \<and>
   prefix [Request POST (results_url example_report)
             [(MARKET_KEY, lit ''A''), (TIME_PERIOD_KEY, lit ''P'')] None]
     (events (snd (dump_market example_report (lit ''P'') (lit ''A'') ([], [])
        (fresh_world [] [] [] [(lit ''pyce/Jan/~1/QQ.csv'', File [])]))))"
  using C6_skip_existing [of "(lit ''Jan'', lit ''pyce/Jan/~1'')" "lit ''A''" "lit ''QQ''"
          "fresh_world [] [] [] [(lit ''pyce/Jan/~1/QQ.csv'', File [])]"
          example_report "lit ''P''"]
        C6_skip_existing [of "([], [])" "lit ''A''" _
          "fresh_world [] [] [] [(lit ''pyce/Jan/~1/QQ.csv'', File [])]"
          example_report "lit ''P''"]
  by (simp add: encode_data_A isfile_def fresh_world_def)


text \<open>
  C6 as stated fails for the first market of a period: the fragment file of market
  \<open>"A"\<close> is on disk before the run, yet the run posts the request for \<open>"A"\<close> (to learn
  the label of the period) and only then prints the skip message.
\<close>

theorem C6_first_market_counterexample:
  "isfile [(lit ''pyce/Jan/~1'', Dir), (lit ''pyce/Jan/~1/QQ.csv'', File [[lit ''old'']])]
      (lit ''pyce/Jan/~1/QQ.csv'') \<and>
   events (snd (dump example_report
     (fresh_world
        [Reply (Response 200 None
           (CriteriaJson [Criteria MARKET_KEY [lit ''A''], Criteria TIME_PERIOD_KEY [lit ''P'']])),
         Reply (Response 200 None (ResultsJson (lit ''Jan'') [[lit ''a1'', lit ''a2'']]))]
        [] []
        [(lit ''pyce/Jan/~1'', Dir), (lit ''pyce/Jan/~1/QQ.csv'', File [[lit ''old'']])]))) =
   [Request GET (lit ''https://www.ice.com/marketdata/api/reports/1/criteria'') [] None,
    Request POST (lit ''https://www.ice.com/marketdata/api/reports/1/results'')
      [(lit ''selectedMarket'', lit ''A''), (lit ''selectedTimePeriod'', lit ''P'')] None,
    Print (SkipMsg (lit ''A'') (lit ''P'')),
    Print (FragmentMsg (lit ''pyce/Jan/~1/QQ.csv'') (lit ''Jan'')),
    Print (ReportMsg 1 (lit ''Jan'') (lit ''pyce/Jan/1.csv''))]"
  by (simp add: dump_eval)

text \<open>
  C4. Three runs on one market and one period, each with a fault on the fragment. When
  \<open>open\<close> fails with \<open>OSError\<close> the handler's \<open>os.remove\<close> finds no file and the run ends
  with \<open>FileNotFoundError\<close>, not with the error of the write. When the write is
  interrupted after one row (\<open>KeyboardInterrupt\<close>, which \<open>except Exception\<close> does not
  catch) the run ends and the fragment with that one row stays on disk. When the write
  fails after one row with \<open>OSError\<close> the message is printed, the fragment is removed and
  the run ends with \<open>OSError\<close>.
\<close>

theorem C4_write_failures:
  "fst (dump example_report
     (fresh_world
        [Reply (Response 200 None
           (CriteriaJson [Criteria MARKET_KEY [lit ''A''], Criteria TIME_PERIOD_KEY [lit ''P'']])),
         Reply (Response 200 None
           (ResultsJson (lit ''Jan'') [[lit ''a1'', lit ''a2''], [lit ''a3'', lit ''a4'']]))]
        [] [OpenFault OSError] [])) = Inl FileNotFoundError \<and>
   fst (dump example_report
     (fresh_world
        [Reply (Response 200 None
           (CriteriaJson [Criteria MARKET_KEY [lit ''A''], Criteria TIME_PERIOD_KEY [lit ''P'']])),
         Reply (Response 200 None
           (ResultsJson (lit ''Jan'') [[lit ''a1'', lit ''a2''], [lit ''a3'', lit ''a4'']]))]
        [] [WriteFault 1 KeyboardInterrupt] [])) = Inl KeyboardInterrupt \<and>
   files (snd (dump example_report
     (fresh_world
        [Reply (Response 200 None
           (CriteriaJson [Criteria MARKET_KEY [lit ''A''], Criteria TIME_PERIOD_KEY [lit ''P'']])),
         Reply (Response 200 None
           (ResultsJson (lit ''Jan'') [[lit ''a1'', lit ''a2''], [lit ''a3'', lit ''a4'']]))]
        [] [WriteFault 1 KeyboardInterrupt] []))) =
     [(lit ''pyce/Jan/~1'', Dir), (lit ''pyce/Jan/~1/QQ.csv'', File [[lit ''a1'', lit ''a2'']])] \<and>
   dump example_report
     (fresh_world
        [Reply (Response 200 None
           (CriteriaJson [Criteria MARKET_KEY [lit ''A''], Criteria TIME_PERIOD_KEY [lit ''P'']])),
         Reply (Response 200 None
           (ResultsJson (lit ''Jan'') [[lit ''a1'', lit ''a2''], [lit ''a3'', lit ''a4'']]))]
        [] [WriteFault 1 OSError] []) =
     (Inl OSError,
      \<lparr>replies = [], stdin = [], faults = [], magic_dirs = (\<lambda>_. []),
        files = [(lit ''pyce/Jan/~1'', Dir)], cookie = None,
        cache = Some ((lit ''A'', lit ''P''),
                      (lit ''Jan'', [[lit ''a1'', lit ''a2''], [lit ''a3'', lit ''a4'']])),
        events = [Request GET (lit ''https://www.ice.com/marketdata/api/reports/1/criteria'') [] None,
                  Request POST (lit ''https://www.ice.com/marketdata/api/reports/1/results'')
                    [(lit ''selectedMarket'', lit ''A''), (lit ''selectedTimePeriod'', lit ''P'')] None,
                  Print (WriteErrorMsg OSError)]\<rparr>)"
  by (simp add: dump_eval fetch_label_def save_fragment_def)

section \<open>Lemmas about paths and the merge\<close>






lemma path_join_relative:
  "b \<noteq> [] \<Longrightarrow> hd b \<noteq> 47 \<Longrightarrow>
   path_join P [b] = (if P = [] \<or> last P = 47 then P @ b else P @ 47 # b)"
  by simp





















lemma consolidate_no_dir:
  "temp_dir = [] \<or> \<not> isdir (files w) temp_dir \<Longrightarrow>
   consolidate self date temp_dir w = (Inr (), w)"
  by (auto simp: consolidate_def)

lemma consolidate_target_is_dir:
  "temp_dir \<noteq> [] \<Longrightarrow> isdir (files w) temp_dir \<Longrightarrow>
   isdir (files w) (merged_path self temp_dir) \<Longrightarrow>
   consolidate self date temp_dir w = (Inl OSError, w)"
  by (simp add: consolidate_def merged_path_def)




lemma empty_market_fragment_hidden:
  "encode_data [] = Inr [] \<and>
   files (snd (dump example_report
     (fresh_world
        [Reply (Response 200 None
           (CriteriaJson [Criteria MARKET_KEY [[]], Criteria TIME_PERIOD_KEY [lit ''P'']])),
         Reply (Response 200 None (ResultsJson (lit ''Jan'') [[lit ''a1'', lit ''a2'']]))]
        [] [] []))) =
     [(lit ''pyce/Jan/1.csv'', File [])]"
  by (simp add: dump_eval encode_data_def urlsafe_b64encode_def rstrip_pad_def)

section \<open>The claim about the merge\<close>







end
